theory Spec2Isabelle
  imports Main
begin

section \<open>The batch submitter's start-up driver (src/exec/run-batch-submitter.ts)\<close>

text \<open>
  The file exports one async function, \<open>run\<close>. It checks the environment, builds the
  providers, the signer and the two submitters, and then launches up to two instances of
  the local async function \<open>loop\<close>, one per role, without awaiting them. Every call into
  the outside world (signer, submitter, timer, logger, process) is recorded as an event
  of a trace; every \<open>await\<close> is a control point at which a loop instance is suspended
  until the environment settles the promise it waits for.
\<close>

subsection \<open>process.env and the required variables\<close>

type_synonym environment = "string \<Rightarrow> string option"

text \<open>The keys of \<open>requiredEnvVars\<close>, in the order of the object literal, which is the
  order \<open>Object.entries\<close> yields them in.\<close>

definition requiredEnvVars :: "string list" where
  "requiredEnvVars =
     [''L1_NODE_WEB3_URL'', ''L2_NODE_WEB3_URL'', ''MIN_TX_SIZE'', ''MAX_TX_SIZE'',
      ''MAX_BATCH_SIZE'', ''MAX_BATCH_SUBMISSION_TIME'', ''POLL_INTERVAL'',
      ''NUM_CONFIRMATIONS'', ''RESUBMISSION_TIMEOUT'', ''FINALITY_CONFIRMATIONS'',
      ''RUN_TX_BATCH_SUBMITTER'', ''RUN_STATE_BATCH_SUBMITTER'',
      ''SAFE_MINIMUM_ETHER_BALANCE'', ''CLEAR_PENDING_TXS'', ''ADDRESS_MANAGER_ADDRESS'']"

text \<open>JavaScript truthiness of \<open>process.env[k]\<close>: \<open>undefined\<close> and the empty string are
  falsy, every other string is truthy.\<close>

definition truthy :: "string option \<Rightarrow> bool" where
  "truthy v = (case v of None \<Rightarrow> False | Some s \<Rightarrow> s \<noteq> [])"

text \<open>The \<open>for\<close> loop of lines 94-100: the first key whose variable is falsy, if any.\<close>

fun firstMissing :: "environment \<Rightarrow> string list \<Rightarrow> string option" where
  "firstMissing env [] = None"
| "firstMissing env (val # vals) =
     (if \<not> truthy (env val) then Some val else firstMissing env vals)"

text \<open>\<open>requiredEnvVars.K\<close> after the loop: the object starts with each key mapped to its
  own name and the loop overwrites it with \<open>process.env[K]\<close>.\<close>

definition required :: "environment \<Rightarrow> string \<Rightarrow> string" where
  "required env k = (case env k of Some v \<Rightarrow> v | None \<Rightarrow> k)"

subsection \<open>parseInt with radix 10\<close>

text \<open>
  ECMAScript \<open>parseInt(s, 10)\<close>: leading white space is skipped, one sign is read, then the
  longest run of decimal digits; with no digit the result is \<open>NaN\<close>, here \<open>None\<close>. Strings
  are byte strings, so only the ASCII white space characters are recognised. The result
  is an integer, which a JavaScript number holds exactly up to \<open>2 ^ 53\<close>.
\<close>

definition isWhiteSpace :: "char \<Rightarrow> bool" where
  "isWhiteSpace c = ((of_char c :: nat) \<in> {9, 10, 11, 12, 13, 32})"

definition isDigit :: "char \<Rightarrow> bool" where
  "isDigit c = (48 \<le> (of_char c :: nat) \<and> (of_char c :: nat) \<le> 57)"

definition digitValue :: "char \<Rightarrow> int" where
  "digitValue c = int (of_char c) - 48"

definition parseInt :: "string \<Rightarrow> int option" where
  "parseInt s =
     (let t = dropWhile isWhiteSpace s;
          neg = (case t of [] \<Rightarrow> False | c # _ \<Rightarrow> c = CHR ''-'');
          u = (case t of [] \<Rightarrow> [] | c # cs \<Rightarrow> if c = CHR ''-'' \<or> c = CHR ''+'' then cs else t);
          z = takeWhile isDigit u
      in if z = [] then None
         else Some ((if neg then - 1 else 1) * foldl (\<lambda>a c. 10 * a + digitValue c) 0 z))"

text \<open>A product with \<open>NaN\<close> is \<open>NaN\<close>.\<close>

definition times :: "int option \<Rightarrow> int \<Rightarrow> int option" where
  "times x k = map_option (\<lambda>n. n * k) x"

subsection \<open>Events, control points and the state of the process\<close>

datatype role = TxBatch | StateBatch

datatype blockTag = Pending | Latest

text \<open>What an awaited promise settles to. A fulfilled promise carries a number and a
  string; each continuation reads the component of the type it awaits (the count of
  \<open>getTransactionCount\<close>, the address of \<open>getAddress\<close>, the hash of the response of
  \<open>sendTransaction\<close>, the chain id) and ignores the other.\<close>

datatype response = Resolve nat string | Reject string

datatype logmsg =
    Starting
  | MissingVariable string
  | UsingAddress string
  | DetectedPending
  | SubmittingTransaction nat string
  | CannotClear string
  | ErrorSubmitting string
  | Retrying

text \<open>The constructor arguments the two submitters share. The balance is kept as the
  string handed to \<open>parseFloat\<close>.\<close>

record batchArgs =
  minTxSize :: "int option"
  maxTxSize :: "int option"
  maxBatchSize :: "int option"
  maxBatchSubmissionTime :: "int option"
  numConfirmations :: "int option"
  resubmissionTimeout :: "int option"
  pullFromAddressManager :: bool
  addressManagerAddress :: string
  safeMinimumEtherBalance :: string

datatype event =
    LogInfo logmsg
  | LogError logmsg
  | Exit nat
  | NewJsonRpcProvider string
  | NewOptimismProvider string
  | NewWallet string
  | WalletFromMnemonic string "string option"
  | RunGetAddress
  | SendEthChainId
  | NewTransactionBatchSubmitter batchArgs bool
  | NewStateBatchSubmitter batchArgs "int option" string
  | SetChainId role string
  | GetTransactionCount role blockTag
  | GetAddress role
  | SendTransaction role string nat nat
  | GetReceiptWithResubmission role string "string list" "int option" int
  | SubmitNextBatch role
  | SetTimeout role "int option"

text \<open>The arguments are those of the call: \<open>SendTransaction r to value nonce\<close>,
  \<open>GetReceiptWithResubmission r hash attempts confirmations timeout\<close> (the response is
  named by its hash), \<open>SetTimeout r delay\<close>. The role names the loop instance that makes
  the call; the signer and the logger are shared by both.\<close>

text \<open>The \<open>await\<close> at which an instance of \<open>loop\<close> is suspended. \<open>AwaitLatest p\<close> holds
  \<open>pendingTxs\<close>; the three control points of the \<open>for\<close> body hold \<open>pendingTxs\<close> and \<open>i\<close>.\<close>

datatype pc =
    NotStarted
  | AwaitPending
  | AwaitLatest nat
  | AwaitAddress nat nat
  | AwaitSend nat nat
  | AwaitReceipt nat nat
  | AwaitFunc
  | AwaitSleep

text \<open>\<open>exited\<close> is the status \<open>process.exit\<close> was called with; \<open>rejected\<close> is the error the
  promise of \<open>run\<close> was rejected with.\<close>

record world =
  tasks :: "role \<Rightarrow> pc"
  trace :: "event list"
  exited :: "nat option"
  rejected :: "string option"

definition emit :: "event list \<Rightarrow> world \<Rightarrow> world" where
  "emit es w = w\<lparr>trace := trace w @ es\<rparr>"

definition goto :: "role \<Rightarrow> pc \<Rightarrow> world \<Rightarrow> world" where
  "goto r p w = w\<lparr>tasks := (tasks w)(r := p)\<rparr>"

subsection \<open>The function loop (lines 162-207)\<close>

definition clearPendingTxs :: "environment \<Rightarrow> bool" where
  "clearPendingTxs env = (required env ''CLEAR_PENDING_TXS'' = ''true'')"

text \<open>The head of \<open>while (true)\<close>: \<open>func()\<close> is called and awaited.\<close>

definition enterWhile :: "role \<Rightarrow> world \<Rightarrow> world" where
  "enterWhile r w = goto r AwaitFunc (emit [SubmitNextBatch r] w)"

text \<open>The head of the \<open>for\<close> loop at \<open>i\<close>: the argument of \<open>sendTransaction\<close> is evaluated
  first, which awaits \<open>getAddress()\<close>; past the last nonce the \<open>try\<close> block ends.\<close>

definition forHead :: "role \<Rightarrow> nat \<Rightarrow> nat \<Rightarrow> world \<Rightarrow> world" where
  "forHead r pendingTxs i w =
     (if i < pendingTxs then goto r (AwaitAddress pendingTxs i) (emit [GetAddress r] w)
      else enterWhile r w)"

text \<open>The \<open>catch\<close> block of lines 189-192.\<close>

definition catchClear :: "string \<Rightarrow> world \<Rightarrow> world" where
  "catchClear err w = (emit [LogError (CannotClear err), Exit 1] w)\<lparr>exited := Some 1\<rparr>"

text \<open>The call \<open>loop(func)\<close> up to its first \<open>await\<close>.\<close>

definition loop :: "environment \<Rightarrow> role \<Rightarrow> world \<Rightarrow> world" where
  "loop env r w =
     (if clearPendingTxs env
      then goto r AwaitPending (emit [GetTransactionCount r Pending] w)
      else enterWhile r w)"

text \<open>The continuation of instance \<open>r\<close> when the promise it awaits settles with \<open>x\<close>.
  Nothing runs after \<open>process.exit\<close>. The timer promise has no reject path.\<close>

definition resume :: "environment \<Rightarrow> role \<Rightarrow> response \<Rightarrow> world \<Rightarrow> world" where
  "resume env r x w =
     (if exited w \<noteq> None then w
      else case tasks w r of
        NotStarted \<Rightarrow> w
      | AwaitPending \<Rightarrow>
          (case x of
             Resolve pendingTxs _ \<Rightarrow>
               goto r (AwaitLatest pendingTxs) (emit [GetTransactionCount r Latest] w)
           | Reject err \<Rightarrow> catchClear err w)
      | AwaitLatest pendingTxs \<Rightarrow>
          (case x of
             Resolve latestTxs _ \<Rightarrow>
               (if pendingTxs > latestTxs
                then forHead r pendingTxs latestTxs (emit [LogInfo DetectedPending] w)
                else enterWhile r w)
           | Reject err \<Rightarrow> catchClear err w)
      | AwaitAddress pendingTxs i \<Rightarrow>
          (case x of
             Resolve _ address \<Rightarrow>
               goto r (AwaitSend pendingTxs i) (emit [SendTransaction r address 0 i] w)
           | Reject err \<Rightarrow> catchClear err w)
      | AwaitSend pendingTxs i \<Rightarrow>
          (case x of
             Resolve _ hash \<Rightarrow>
               goto r (AwaitReceipt pendingTxs i)
                 (emit [LogInfo (SubmittingTransaction i hash),
                        GetReceiptWithResubmission r hash []
                          (parseInt (required env ''NUM_CONFIRMATIONS'')) (60 * 1000)] w)
           | Reject err \<Rightarrow> catchClear err w)
      | AwaitReceipt pendingTxs i \<Rightarrow>
          (case x of
             Resolve _ _ \<Rightarrow> forHead r pendingTxs (i + 1) w
           | Reject err \<Rightarrow> catchClear err w)
      | AwaitFunc \<Rightarrow>
          (case x of
             Resolve _ _ \<Rightarrow>
               goto r AwaitSleep
                 (emit [SetTimeout r (parseInt (required env ''POLL_INTERVAL''))] w)
           | Reject err \<Rightarrow>
               goto r AwaitSleep
                 (emit [LogError (ErrorSubmitting err), LogInfo Retrying,
                        SetTimeout r (parseInt (required env ''POLL_INTERVAL''))] w))
      | AwaitSleep \<Rightarrow>
          (case x of
             Resolve _ _ \<Rightarrow> enterWhile r w
           | Reject _ \<Rightarrow> w))"

subsection \<open>The function run (lines 91-215)\<close>

definition batchArgsOf :: "environment \<Rightarrow> batchArgs" where
  "batchArgsOf env =
     \<lparr> minTxSize = parseInt (required env ''MIN_TX_SIZE''),
       maxTxSize = parseInt (required env ''MAX_TX_SIZE''),
       maxBatchSize = parseInt (required env ''MAX_BATCH_SIZE''),
       maxBatchSubmissionTime = times (parseInt (required env ''MAX_BATCH_SUBMISSION_TIME'')) 1000,
       numConfirmations = parseInt (required env ''NUM_CONFIRMATIONS''),
       resubmissionTimeout = times (parseInt (required env ''RESUBMISSION_TIMEOUT'')) 1000,
       pullFromAddressManager = True,
       addressManagerAddress = required env ''ADDRESS_MANAGER_ADDRESS'',
       safeMinimumEtherBalance = required env ''SAFE_MINIMUM_ETHER_BALANCE'' \<rparr>"

definition FRAUD_SUBMISSION_ADDRESS :: "environment \<Rightarrow> string" where
  "FRAUD_SUBMISSION_ADDRESS env =
     (case env ''FRAUD_SUBMISSION_ADDRESS'' of
        None \<Rightarrow> ''no fraud''
      | Some v \<Rightarrow> if v = [] then ''no fraud'' else v)"

definition DISABLE_QUEUE_BATCH_APPEND :: "environment \<Rightarrow> bool" where
  "DISABLE_QUEUE_BATCH_APPEND env = truthy (env ''DISABLE_QUEUE_BATCH_APPEND'')"

text \<open>Lines 111-121: the signer, or nothing where the source throws.\<close>

definition fromMnemonic :: "environment \<Rightarrow> event option" where
  "fromMnemonic env =
     (case env ''MNEMONIC'' of
        None \<Rightarrow> None
      | Some m \<Rightarrow> if m = [] then None else Some (WalletFromMnemonic m (env ''HD_PATH'')))"

definition sequencerSigner :: "environment \<Rightarrow> event option" where
  "sequencerSigner env =
     (case env ''SEQUENCER_PRIVATE_KEY'' of
        None \<Rightarrow> fromMnemonic env
      | Some k \<Rightarrow> if k = [] then fromMnemonic env else Some (NewWallet k))"

definition start :: world where
  "start = \<lparr> tasks = (\<lambda>_. NotStarted), trace = [LogInfo Starting],
             exited = None, rejected = None \<rparr>"

text \<open>Lines 209-215: the two launches, the transaction loop first.\<close>

definition launch :: "environment \<Rightarrow> world \<Rightarrow> world" where
  "launch env w =
     (let w1 = (if required env ''RUN_TX_BATCH_SUBMITTER'' = ''true''
                then loop env TxBatch w else w)
      in if required env ''RUN_STATE_BATCH_SUBMITTER'' = ''true''
         then loop env StateBatch w1 else w1)"

text \<open>The optional variables are read when the module is loaded and the required ones
  when \<open>run\<close> is called; both are read from the same environment here. What the
  constructors of the providers, the wallet and the submitters do is not part of the
  file and is recorded as an event only.\<close>

text \<open>\<open>run\<close> awaits twice before it launches the loops: \<open>sequencerSigner.getAddress()\<close>
  and \<open>l2Provider.send('eth_chainId', [])\<close>. No loop runs yet, so the two settlements
  are arguments. A rejected await rejects the promise of \<open>run\<close>.\<close>

definition run :: "environment \<Rightarrow> response \<Rightarrow> response \<Rightarrow> world" where
  "run env addressR chainIdR =
     (case firstMissing env requiredEnvVars of
        Some val \<Rightarrow> (emit [LogError (MissingVariable val), Exit 1] start)\<lparr>exited := Some 1\<rparr>
      | None \<Rightarrow>
         (let w1 = emit [NewJsonRpcProvider (required env ''L1_NODE_WEB3_URL''),
                         NewOptimismProvider (required env ''L2_NODE_WEB3_URL'')] start
          in case sequencerSigner env of
               None \<Rightarrow> w1\<lparr>rejected := Some ''Must pass one of SEQUENCER_PRIVATE_KEY or MNEMONIC''\<rparr>
             | Some wallet \<Rightarrow>
                (let w2 = emit [wallet, RunGetAddress] w1
                 in case addressR of
                      Reject err \<Rightarrow> w2\<lparr>rejected := Some err\<rparr>
                    | Resolve _ address \<Rightarrow>
                       (let w3 = emit [LogInfo (UsingAddress address), SendEthChainId] w2
                        in case chainIdR of
                             Reject err \<Rightarrow> w3\<lparr>rejected := Some err\<rparr>
                           | Resolve _ chainId \<Rightarrow>
                               launch env
                                 (emit [NewTransactionBatchSubmitter (batchArgsOf env)
                                          (DISABLE_QUEUE_BATCH_APPEND env),
                                        SetChainId TxBatch chainId,
                                        NewStateBatchSubmitter (batchArgsOf env)
                                          (parseInt (required env ''FINALITY_CONFIRMATIONS''))
                                          (FRAUD_SUBMISSION_ADDRESS env),
                                        SetChainId StateBatch chainId] w3)))))"

text \<open>A schedule lists, in the order the event loop delivers them, which instance is
  resumed and what its promise settled to.\<close>

type_synonym schedule = "(role \<times> response) list"

definition deliver :: "environment \<Rightarrow> world \<Rightarrow> schedule \<Rightarrow> world" where
  "deliver env w s = foldl (\<lambda>w (r, x). resume env r x w) w s"

definition exec :: "environment \<Rightarrow> response \<Rightarrow> response \<Rightarrow> schedule \<Rightarrow> world" where
  "exec env addressR chainIdR s = deliver env (run env addressR chainIdR) s"

subsection \<open>Observing a run\<close>

text \<open>The loop instance on whose behalf a call to the signer, the submitter or the timer
  is made. Log lines and the calls of \<open>run\<close> itself belong to no instance.\<close>

fun caller :: "event \<Rightarrow> role option" where
  "caller (GetTransactionCount r _) = Some r"
| "caller (GetAddress r) = Some r"
| "caller (SendTransaction r _ _ _) = Some r"
| "caller (GetReceiptWithResubmission r _ _ _ _) = Some r"
| "caller (SubmitNextBatch r) = Some r"
| "caller (SetTimeout r _) = Some r"
| "caller _ = None"

definition calls :: "role \<Rightarrow> event list \<Rightarrow> event list" where
  "calls r tr = filter (\<lambda>e. caller e = Some r) tr"

text \<open>The variable that gates the launch of a role's loop (lines 210 and 213).\<close>

fun runFlag :: "role \<Rightarrow> string" where
  "runFlag TxBatch = ''RUN_TX_BATCH_SUBMITTER''"
| "runFlag StateBatch = ''RUN_STATE_BATCH_SUBMITTER''"

text \<open>The control points inside the \<open>try\<close> block of lines 167-188.\<close>

fun reconciling :: "pc \<Rightarrow> bool" where
  "reconciling AwaitPending = True"
| "reconciling (AwaitLatest _) = True"
| "reconciling (AwaitAddress _ _) = True"
| "reconciling (AwaitSend _ _) = True"
| "reconciling (AwaitReceipt _ _) = True"
| "reconciling _ = False"

text \<open>A world in which no loop instance has been launched or has made a call.\<close>

definition quiet :: "world \<Rightarrow> bool" where
  "quiet w \<longleftrightarrow> tasks w = (\<lambda>_. NotStarted) \<and> (\<forall>e\<in>set (trace w). caller e = None)"

text \<open>What holds of instance \<open>r\<close> throughout every run: each of the two counts is read at
  most once, and no batch is submitted before the \<open>try\<close> block is left.\<close>

definition onceOnly :: "role \<Rightarrow> world \<Rightarrow> bool" where
  "onceOnly r w \<longleftrightarrow>
     count_list (trace w) (GetTransactionCount r Pending) \<le> 1
   \<and> count_list (trace w) (GetTransactionCount r Latest) \<le> 1
   \<and> (tasks w r = NotStarted \<longrightarrow> count_list (trace w) (GetTransactionCount r Pending) = 0)
   \<and> (tasks w r = NotStarted \<or> tasks w r = AwaitPending \<longrightarrow>
        count_list (trace w) (GetTransactionCount r Latest) = 0)
   \<and> (tasks w r = NotStarted \<or> reconciling (tasks w r) \<longrightarrow> SubmitNextBatch r \<notin> set (trace w))"

text \<open>A complete environment for the examples, with the three flags left open.\<close>

definition exampleEnv :: "string \<Rightarrow> string \<Rightarrow> string \<Rightarrow> environment" where
  "exampleEnv tx st clear =
     map_of [(''L1_NODE_WEB3_URL'', ''http://l1''), (''L2_NODE_WEB3_URL'', ''http://l2''),
       (''MIN_TX_SIZE'', ''32''), (''MAX_TX_SIZE'', ''90000''), (''MAX_BATCH_SIZE'', ''50''),
       (''MAX_BATCH_SUBMISSION_TIME'', ''4''), (''POLL_INTERVAL'', ''15''),
       (''NUM_CONFIRMATIONS'', ''1''), (''RESUBMISSION_TIMEOUT'', ''7''),
       (''FINALITY_CONFIRMATIONS'', ''0''), (''RUN_TX_BATCH_SUBMITTER'', tx),
       (''RUN_STATE_BATCH_SUBMITTER'', st), (''SAFE_MINIMUM_ETHER_BALANCE'', ''0''),
       (''CLEAR_PENDING_TXS'', clear), (''ADDRESS_MANAGER_ADDRESS'', ''0xa''),
       (''SEQUENCER_PRIVATE_KEY'', ''0xk'')]"

subsection \<open>The exit status of the process\<close>

text \<open>Modelled from the spec: the caller of \<open>run\<close> and the runtime under it, which are not
  in the source file. The status of the process is the one \<open>process.exit\<close> was called
  with. When \<open>run\<close> throws, nothing in the file handles the rejected promise; sections 6
  and 7 have a fatal start-up error, signer construction failure among them, terminate
  the process with a non-zero status, which is the status 1 of the runtime for a
  rejection that nothing handles. \<open>None\<close> as long as the process runs.\<close>

definition exitStatus :: "world \<Rightarrow> nat option" where
  "exitStatus w =
     (case exited w of
        Some n \<Rightarrow> Some n
      | None \<Rightarrow> (case rejected w of Some _ \<Rightarrow> Some 1 | None \<Rightarrow> None))"

subsection \<open>The chain behind the signer\<close>

text \<open>Modelled from the spec: the chain behind the signer and the Confirmation Waiter
  (\<open>BatchSubmitter.getReceiptWithResubmission\<close>), which the source file calls and does not
  contain. Section 3 gives the nonce window, the latest and the pending transaction
  count. With it the chain keeps, for the hash of every transaction that was broadcast,
  the nonce the transaction was broadcast at.\<close>

record chain =
  latest :: nat
  pending :: nat
  broadcast :: "string \<Rightarrow> nat option"

text \<open>Modelled from the spec: whether the chain can have settled a call in this way, and
  the chain after it; \<open>None\<close> when it cannot. The call is the event the source has
  emitted: the nonce of a broadcast is the one passed to \<open>sendTransaction\<close>, and the
  transaction a wait is for is the response passed to \<open>getReceiptWithResubmission\<close>, named
  by its hash. The two counts are reported as they are (section 6). A transaction
  broadcast at nonce \<open>i\<close> occupies nonce \<open>i\<close> (section 3), and its hash names no
  transaction at another nonce. By the waiter's guarantee (section 4.2) a wait that is
  fulfilled means that the awaited transaction is confirmed: it was broadcast, every
  nonce below its own was confirmed before, and its own is confirmed from then on. What a
  call of \<open>submitNextBatch\<close> does to the chain is left to the submitters (section 1), so
  no settlement of such a call is followed. \<open>getAddress\<close>, the timer and a rejected call
  leave the chain as it is.\<close>

fun settle :: "event \<Rightarrow> response \<Rightarrow> chain \<Rightarrow> chain option" where
  "settle (GetTransactionCount r Pending) (Resolve n t) ch =
     (if n = pending ch then Some ch else None)"
| "settle (GetTransactionCount r Latest) (Resolve n t) ch =
     (if n = latest ch then Some ch else None)"
| "settle (SendTransaction r to v i) (Resolve n h) ch =
     (if broadcast ch h = None \<or> broadcast ch h = Some i
      then Some (ch\<lparr>pending := max (pending ch) (i + 1), broadcast := (broadcast ch)(h \<mapsto> i)\<rparr>)
      else None)"
| "settle (GetReceiptWithResubmission r h attempts confirmations timeout) (Resolve n t) ch =
     (case broadcast ch h of
        None \<Rightarrow> None
      | Some i \<Rightarrow> if i \<le> latest ch then Some (ch\<lparr>latest := max (latest ch) (i + 1)\<rparr>) else None)"
| "settle (SubmitNextBatch r) x ch = None"
| "settle call x ch = Some ch"

text \<open>The call whose promise instance \<open>r\<close> awaits: the last one it has made.\<close>

definition awaited :: "role \<Rightarrow> world \<Rightarrow> event option" where
  "awaited r w = (case rev (calls r (trace w)) of [] \<Rightarrow> None | call # _ \<Rightarrow> Some call)"

text \<open>A run of the process against the chain. Both loop instances use the one signer, in
  the order of the schedule: each settlement has to be one the chain can have given to
  the call that the instance awaits, and moves the chain. A settlement for an instance
  that was not launched, or after \<open>process.exit\<close>, resumes nothing.\<close>

fun drive :: "environment \<Rightarrow> world \<times> chain \<Rightarrow> schedule \<Rightarrow> (world \<times> chain) option" where
  "drive env (w, ch) [] = Some (w, ch)"
| "drive env (w, ch) ((r, x) # s) =
     (if exited w \<noteq> None \<or> tasks w r = NotStarted then drive env (w, ch) s
      else case awaited r w of
             None \<Rightarrow> None
           | Some call \<Rightarrow>
               (case settle call x ch of
                  None \<Rightarrow> None
                | Some ch' \<Rightarrow> drive env (resume env r x w, ch') s))"

text \<open>What holds of an instance as long as no instance has called \<open>submitNextBatch\<close>:
  inside the \<open>try\<close> block it awaits the call of its control point, \<open>pendingTxs\<close> is the
  pending count \<open>P\<close>, the nonce of the \<open>for\<close> loop is below it, and the transaction it
  waits for was broadcast at that nonce.\<close>

definition taskInv :: "nat \<Rightarrow> role \<Rightarrow> world \<Rightarrow> chain \<Rightarrow> bool" where
  "taskInv P r w ch =
     (case tasks w r of
        NotStarted \<Rightarrow> True
      | AwaitPending \<Rightarrow> awaited r w = Some (GetTransactionCount r Pending)
      | AwaitLatest p \<Rightarrow> p = P \<and> awaited r w = Some (GetTransactionCount r Latest)
      | AwaitAddress p i \<Rightarrow> p = P \<and> i < p \<and> awaited r w = Some (GetAddress r)
      | AwaitSend p i \<Rightarrow> p = P \<and> i < p \<and> (\<exists>a. awaited r w = Some (SendTransaction r a 0 i))
      | AwaitReceipt p i \<Rightarrow> p = P \<and> i < p
          \<and> (\<exists>h nc. awaited r w = Some (GetReceiptWithResubmission r h [] nc 60000)
                \<and> broadcast ch h = Some i)
      | AwaitFunc \<Rightarrow> SubmitNextBatch r \<in> set (trace w)
      | AwaitSleep \<Rightarrow> SubmitNextBatch r \<in> set (trace w))"

text \<open>Until the first call of \<open>submitNextBatch\<close> the pending count stays \<open>P\<close> and the latest
  count does not pass it.\<close>

definition gapInv :: "nat \<Rightarrow> world \<Rightarrow> chain \<Rightarrow> bool" where
  "gapInv P w ch \<longleftrightarrow>
     ((\<forall>r. SubmitNextBatch r \<notin> set (trace w)) \<longrightarrow>
        pending ch = P \<and> latest ch \<le> P \<and> (\<forall>r. taskInv P r w ch))"

text \<open>Modelled from the spec: the window of the example scenario of section 8, latest 5 and
  pending 8, with three transactions that were broadcast and never mined.\<close>

definition stuckChain :: chain where
  "stuckChain = \<lparr> latest = 5, pending = 8,
                   broadcast = [''0xs5'' \<mapsto> 5, ''0xs6'' \<mapsto> 6, ''0xs7'' \<mapsto> 7] \<rparr>"

text \<open>Both loops reconcile at once. Each reads 8 and 5 and broadcasts the same
  self-transfer at nonce 5; the transaction loop then clears nonces 6 and 7 while the state
  loop has only learnt that nonce 5 is confirmed.\<close>

definition bothClearing :: schedule where
  "bothClearing =
     [(TxBatch, Resolve 8 []), (StateBatch, Resolve 8 []),
      (TxBatch, Resolve 5 []), (StateBatch, Resolve 5 []),
      (TxBatch, Resolve 0 ''0xme''), (TxBatch, Resolve 0 ''0xt5''),
      (StateBatch, Resolve 0 ''0xme''), (StateBatch, Resolve 0 ''0xt5''),
      (TxBatch, Resolve 0 []), (TxBatch, Resolve 0 ''0xme''), (TxBatch, Resolve 0 ''0xt6''),
      (StateBatch, Resolve 0 []),
      (TxBatch, Resolve 0 []), (TxBatch, Resolve 0 ''0xme''), (TxBatch, Resolve 0 ''0xt7'')]"

section \<open>Basic facts\<close>

lemmas loop_defs = resume_def enterWhile_def forHead_def catchClear_def emit_def goto_def

lemmas parse_defs = parseInt_def isDigit_def isWhiteSpace_def digitValue_def times_def

subsection \<open>Delivering a schedule\<close>

lemma deliver_Nil [simp]: "deliver env w [] = w"
  by (simp add: deliver_def)

lemma deliver_Cons [simp]: "deliver env w ((r, x) # s) = deliver env (resume env r x w) s"
  by (simp add: deliver_def)

lemma deliver_append: "deliver env w (s @ t) = deliver env (deliver env w s) t"
  by (simp add: deliver_def)

lemma deliver_invariant:
  assumes "P w" and "\<And>w r x. P w \<Longrightarrow> P (resume env r x w)"
  shows "P (deliver env w s)"
  using assms(1)
proof (induction s arbitrary: w)
  case Nil
  then show ?case by simp
next
  case (Cons e s)
  obtain r x where "e = (r, x)" by (cases e)
  with Cons assms(2) show ?case by simp
qed

lemma resume_after_exit: "exited w \<noteq> None \<Longrightarrow> resume env r x w = w"
  by (simp add: resume_def)

lemma deliver_after_exit: "exited w \<noteq> None \<Longrightarrow> deliver env w s = w"
  by (induction s arbitrary: w) (auto simp: resume_after_exit)

lemma resume_exit_mono: "exited (resume env r x w) = None \<Longrightarrow> exited w = None"
  by (cases "exited w") (simp_all add: resume_def)

lemma resume_NotStarted: "tasks w r = NotStarted \<Longrightarrow> resume env r x w = w"
  by (simp add: resume_def)

lemma all_NotStarted_deliver: "tasks w = (\<lambda>_. NotStarted) \<Longrightarrow> deliver env w s = w"
  by (induction s arbitrary: w) (auto simp: resume_NotStarted)

lemma resume_other_task: "r' \<noteq> r \<Longrightarrow> tasks (resume env r x w) r' = tasks w r'"
  by (auto simp: loop_defs split: pc.splits response.splits)

lemma resume_other_calls: "r' \<noteq> r \<Longrightarrow> calls r' (trace (resume env r x w)) = calls r' (trace w)"
  by (auto simp: loop_defs calls_def split: pc.splits response.splits)

lemma resume_in_while:
  "tasks w r = AwaitFunc \<or> tasks w r = AwaitSleep \<Longrightarrow> exited (resume env r x w) = exited w"
  by (auto simp: loop_defs split: pc.splits response.splits if_splits)

subsection \<open>The outcomes of run\<close>

lemma required_true: "k \<noteq> ''true'' \<Longrightarrow> required env k = ''true'' \<longleftrightarrow> env k = Some ''true''"
  by (auto simp: required_def split: option.splits)

lemma firstMissing_None: "firstMissing env ks = None \<longleftrightarrow> (\<forall>k\<in>set ks. truthy (env k))"
  by (induction ks) auto

lemma firstMissing_Some: "firstMissing env ks = Some v \<Longrightarrow> v \<in> set ks \<and> \<not> truthy (env v)"
  by (induction ks) (auto split: if_splits)

lemma run_missing:
  "firstMissing env requiredEnvVars = Some v \<Longrightarrow>
   run env a c = \<lparr> tasks = (\<lambda>_. NotStarted),
                   trace = [LogInfo Starting, LogError (MissingVariable v), Exit 1],
                   exited = Some 1, rejected = None \<rparr>"
  by (simp add: run_def start_def emit_def)

lemma run_no_signer:
  "firstMissing env requiredEnvVars = None \<Longrightarrow> sequencerSigner env = None \<Longrightarrow>
   run env a c = \<lparr> tasks = (\<lambda>_. NotStarted),
                   trace = [LogInfo Starting, NewJsonRpcProvider (required env ''L1_NODE_WEB3_URL''),
                            NewOptimismProvider (required env ''L2_NODE_WEB3_URL'')],
                   exited = None,
                   rejected = Some ''Must pass one of SEQUENCER_PRIVATE_KEY or MNEMONIC'' \<rparr>"
  by (simp add: run_def start_def emit_def)

lemma run_launched:
  assumes "firstMissing env requiredEnvVars = None" and "sequencerSigner env = Some wl"
  shows "run env (Resolve n addr) (Resolve m cid) =
         launch env (emit [NewJsonRpcProvider (required env ''L1_NODE_WEB3_URL''),
                           NewOptimismProvider (required env ''L2_NODE_WEB3_URL''),
                           wl, RunGetAddress, LogInfo (UsingAddress addr), SendEthChainId,
                           NewTransactionBatchSubmitter (batchArgsOf env)
                             (DISABLE_QUEUE_BATCH_APPEND env),
                           SetChainId TxBatch cid,
                           NewStateBatchSubmitter (batchArgsOf env)
                             (parseInt (required env ''FINALITY_CONFIRMATIONS''))
                             (FRAUD_SUBMISSION_ADDRESS env),
                           SetChainId StateBatch cid] start)"
  using assms by (simp add: run_def emit_def)

lemma signer_caller: "sequencerSigner env = Some e \<Longrightarrow> caller e = None"
  by (auto simp: sequencerSigner_def fromMnemonic_def split: option.splits if_splits)

text \<open>Either \<open>run\<close> stops before the launches, or it is the launches from a quiet world.\<close>

lemma run_shape:
  "quiet (run env a c) \<or> (\<exists>w0. run env a c = launch env w0 \<and> quiet w0 \<and> exited w0 = None)"
proof (cases "firstMissing env requiredEnvVars")
  case (Some v)
  then show ?thesis by (simp add: run_missing quiet_def)
next
  case None
  note fm = this
  show ?thesis
  proof (cases "sequencerSigner env")
    case None
    with fm show ?thesis by (simp add: run_no_signer quiet_def)
  next
    case (Some wl)
    note sg = this signer_caller [OF this]
    show ?thesis
    proof (cases a)
      case (Reject err)
      with fm sg show ?thesis
        by (simp add: run_def quiet_def start_def emit_def)
    next
      case (Resolve n addr)
      note a = this
      show ?thesis
      proof (cases c)
        case (Reject err)
        with fm sg a show ?thesis
          by (simp add: run_def quiet_def start_def emit_def)
      next
        case (Resolve m cid)
        show ?thesis
          unfolding a Resolve run_launched [OF fm sg(1)]
          by (rule disjI2, rule exI, intro conjI, rule refl)
             (simp_all add: quiet_def emit_def start_def sg(2))
      qed
    qed
  qed
qed

lemma quiet_count: "quiet w \<Longrightarrow> caller e \<noteq> None \<Longrightarrow> count_list (trace w) e = 0"
  by (auto simp: quiet_def count_list_0_iff)

lemma quiet_calls: "quiet w \<Longrightarrow> calls r (trace w) = []"
  by (auto simp: quiet_def calls_def)

lemma loop_other_task: "r' \<noteq> r \<Longrightarrow> tasks (loop env r' w) r = tasks w r"
  by (simp add: loop_def enterWhile_def emit_def goto_def)

lemma loop_other_calls: "r' \<noteq> r \<Longrightarrow> calls r (trace (loop env r' w)) = calls r (trace w)"
  by (simp add: loop_def enterWhile_def emit_def goto_def calls_def)

subsection \<open>The example environment\<close>

lemma example_required:
  "required (exampleEnv tx st cl) ''RUN_TX_BATCH_SUBMITTER'' = tx"
  "required (exampleEnv tx st cl) ''RUN_STATE_BATCH_SUBMITTER'' = st"
  "required (exampleEnv tx st cl) ''CLEAR_PENDING_TXS'' = cl"
  "required (exampleEnv tx st cl) ''L1_NODE_WEB3_URL'' = ''http://l1''"
  "required (exampleEnv tx st cl) ''L2_NODE_WEB3_URL'' = ''http://l2''"
  by (simp_all add: required_def exampleEnv_def)

lemma example_complete:
  "tx \<noteq> [] \<Longrightarrow> st \<noteq> [] \<Longrightarrow> cl \<noteq> [] \<Longrightarrow> firstMissing (exampleEnv tx st cl) requiredEnvVars = None"
  by (simp add: requiredEnvVars_def truthy_def exampleEnv_def)

lemma example_signer: "sequencerSigner (exampleEnv tx st cl) = Some (NewWallet ''0xk'')"
  by (simp add: sequencerSigner_def exampleEnv_def)

lemma example_run:
  assumes "tx \<noteq> []" "st \<noteq> []" "cl \<noteq> []"
  shows "run (exampleEnv tx st cl) (Resolve n addr) (Resolve m cid) =
     launch (exampleEnv tx st cl)
       (emit [NewJsonRpcProvider ''http://l1'', NewOptimismProvider ''http://l2'',
              NewWallet ''0xk'', RunGetAddress, LogInfo (UsingAddress addr), SendEthChainId,
              NewTransactionBatchSubmitter (batchArgsOf (exampleEnv tx st cl))
                (DISABLE_QUEUE_BATCH_APPEND (exampleEnv tx st cl)),
              SetChainId TxBatch cid,
              NewStateBatchSubmitter (batchArgsOf (exampleEnv tx st cl))
                (parseInt (required (exampleEnv tx st cl) ''FINALITY_CONFIRMATIONS''))
                (FRAUD_SUBMISSION_ADDRESS (exampleEnv tx st cl)),
              SetChainId StateBatch cid] start)"
  using run_launched [OF example_complete [OF assms] example_signer, of n addr m cid]
  by (simp add: example_required)

lemma example_values:
  "parseInt (required (exampleEnv tx st cl) ''POLL_INTERVAL'') = Some 15"
  "parseInt (required (exampleEnv tx st cl) ''NUM_CONFIRMATIONS'') = Some 1"
  "parseInt (required (exampleEnv tx st cl) ''FINALITY_CONFIRMATIONS'') = Some 0"
  "times (parseInt (required (exampleEnv tx st cl) ''MAX_BATCH_SUBMISSION_TIME'')) 1000 = Some 4000"
  "times (parseInt (required (exampleEnv tx st cl) ''RESUBMISSION_TIMEOUT'')) 1000 = Some 7000"
  "FRAUD_SUBMISSION_ADDRESS (exampleEnv tx st cl) = ''no fraud''"
  "DISABLE_QUEUE_BATCH_APPEND (exampleEnv tx st cl) = False"
  by (simp_all add: required_def exampleEnv_def parse_defs FRAUD_SUBMISSION_ADDRESS_def
        DISABLE_QUEUE_BATCH_APPEND_def truthy_def)

lemmas example_defs = exec_def example_run launch_def loop_def clearPendingTxs_def
  example_required start_def loop_defs

section \<open>Disabled roles\<close>

lemma never_started_resume:
  "tasks w r = NotStarted \<and> calls r (trace w) = [] \<Longrightarrow>
   tasks (resume env r' x w) r = NotStarted \<and> calls r (trace (resume env r' x w)) = []"
  by (cases "r' = r") (auto simp: resume_NotStarted resume_other_task resume_other_calls)

lemma never_started_deliver:
  "tasks w r = NotStarted \<and> calls r (trace w) = [] \<Longrightarrow>
   tasks (deliver env w s) r = NotStarted \<and> calls r (trace (deliver env w s)) = []"
  by (rule deliver_invariant [where P = "\<lambda>w. tasks w r = NotStarted \<and> calls r (trace w) = []"],
      assumption, rule never_started_resume)

lemma launch_disabled:
  assumes "env (runFlag r) \<noteq> Some ''true''"
  shows "tasks (launch env w) r = tasks w r \<and> calls r (trace (launch env w)) = calls r (trace w)"
  using assms
  by (cases r) (simp_all add: launch_def Let_def required_true loop_other_task loop_other_calls)

lemma run_disabled:
  assumes "env (runFlag r) \<noteq> Some ''true''"
  shows "tasks (run env a c) r = NotStarted \<and> calls r (trace (run env a c)) = []"
  using run_shape [of env a c] launch_disabled [where env = env and r = r, OF assms]
  by (auto simp: quiet_calls) (simp_all add: quiet_def)

lemma exec_disabled:
  assumes "env (runFlag r) \<noteq> Some ''true''"
  shows "tasks (exec env a c s) r = NotStarted \<and> calls r (trace (exec env a c s)) = []"
  unfolding exec_def
  by (rule never_started_deliver, rule run_disabled [where env = env and r = r, OF assms])

lemma no_calls_no_submit: "calls r tr = [] \<Longrightarrow> SubmitNextBatch r \<notin> set tr"
  by (auto simp: calls_def filter_empty_conv)

text \<open>
  C7. When the variable that enables a role is not the string \<open>true\<close>, then in every run,
  whatever the other variables hold and whatever the environment answers, the loop of
  that role is never started, it makes no call at all, and in particular
  \<open>submitNextBatch\<close> of its submitter is never called.
\<close>

theorem disabled_role_never_scheduled:
  assumes "env (runFlag r) \<noteq> Some ''true''"
  shows "tasks (exec env a c s) r = NotStarted
       \<and> calls r (trace (exec env a c s)) = []
       \<and> SubmitNextBatch r \<notin> set (trace (exec env a c s))"
  using exec_disabled [where env = env and r = r, OF assms, of a c s]
  by (simp add: no_calls_no_submit)

theorem disabled_role_never_scheduled_witness:
  "exampleEnv ''true'' ''false'' ''true'' (runFlag StateBatch) \<noteq> Some ''true''
   \<and> tasks (exec (exampleEnv ''true'' ''false'' ''true'') (Resolve 0 ''0xme'') (Resolve 0 ''0x1'')
        [(StateBatch, Resolve 3 []), (TxBatch, Resolve 3 []), (StateBatch, Reject ''late'')]) StateBatch
     = NotStarted
   \<and> SubmitNextBatch StateBatch \<notin> set (trace
        (exec (exampleEnv ''true'' ''false'' ''true'') (Resolve 0 ''0xme'') (Resolve 0 ''0x1'')
        [(StateBatch, Resolve 3 []), (TxBatch, Resolve 3 []), (StateBatch, Reject ''late'')]))"
proof -
  have h: "exampleEnv ''true'' ''false'' ''true'' (runFlag StateBatch) \<noteq> Some ''true''"
    by (simp add: exampleEnv_def)
  show ?thesis
    using h disabled_role_never_scheduled [of "exampleEnv ''true'' ''false'' ''true''" StateBatch
        "Resolve 0 ''0xme''" "Resolve 0 ''0x1''"
        "[(StateBatch, Resolve 3 []), (TxBatch, Resolve 3 []), (StateBatch, Reject ''late'')]"]
    by simp
qed

section \<open>The while loop\<close>

lemma while_iteration:
  assumes "exited w = None" "tasks w r = AwaitFunc"
  shows "deliver env w [(r, x), (r, Resolve n t)] =
         emit ((case x of Resolve _ _ \<Rightarrow> []
                | Reject err \<Rightarrow> [LogError (ErrorSubmitting err), LogInfo Retrying])
               @ [SetTimeout r (parseInt (required env ''POLL_INTERVAL'')), SubmitNextBatch r]) w"
  using assms by (cases x) (simp_all add: loop_defs fun_upd_idem)

lemma in_while_resume:
  assumes "tasks w r = AwaitFunc \<or> tasks w r = AwaitSleep"
  shows "tasks (resume env r' x w) r = AwaitFunc \<or> tasks (resume env r' x w) r = AwaitSleep"
proof (cases "r' = r")
  case True
  with assms show ?thesis
    by (cases x) (auto simp: loop_defs)
next
  case False
  with assms show ?thesis by (simp add: resume_other_task)
qed

lemma in_while_deliver:
  assumes "tasks w r = AwaitFunc \<or> tasks w r = AwaitSleep"
  shows "tasks (deliver env w s) r = AwaitFunc \<or> tasks (deliver env w s) r = AwaitSleep"
  by (rule deliver_invariant [where P = "\<lambda>w. tasks w r = AwaitFunc \<or> tasks w r = AwaitSleep"],
      rule assms, rule in_while_resume)

text \<open>
  C3. Take a loop that has called \<open>submitNextBatch\<close> and waits for it, in a process that has
  not exited, and any list of outcomes of its successive calls, fulfilled or rejected.
  After each outcome the loop sets the timer to the parsed \<open>POLL_INTERVAL\<close>, and when the
  timer fires it calls \<open>submitNextBatch\<close> again; a rejection is logged (the error, then
  "Retrying...") before the timer is set. After the whole list, however long and however
  many of the outcomes are rejections, the process has still not exited and the loop is
  again waiting for \<open>submitNextBatch\<close>. And whatever is delivered to either loop, in any
  order, the loop never leaves its \<open>while\<close>: it waits for \<open>submitNextBatch\<close> or for the timer.
\<close>

theorem loop_survives_failures:
  assumes "exited w = None" and "tasks w r = AwaitFunc"
  shows "tasks (deliver env w (concat (map (\<lambda>x. [(r, x), (r, Resolve 0 [])]) outcomes))) r = AwaitFunc
       \<and> exited (deliver env w (concat (map (\<lambda>x. [(r, x), (r, Resolve 0 [])]) outcomes))) = None
       \<and> trace (deliver env w (concat (map (\<lambda>x. [(r, x), (r, Resolve 0 [])]) outcomes))) =
           trace w @ concat (map (\<lambda>x.
             (case x of Resolve _ _ \<Rightarrow> []
              | Reject err \<Rightarrow> [LogError (ErrorSubmitting err), LogInfo Retrying])
             @ [SetTimeout r (parseInt (required env ''POLL_INTERVAL'')), SubmitNextBatch r]) outcomes)
       \<and> (tasks (deliver env w s) r = AwaitFunc \<or> tasks (deliver env w s) r = AwaitSleep)"
  using assms
proof (induction outcomes arbitrary: w)
  case Nil
  then show ?case by (simp add: in_while_deliver)
next
  case (Cons x xs)
  let ?it = "(case x of Resolve _ _ \<Rightarrow> []
              | Reject err \<Rightarrow> [LogError (ErrorSubmitting err), LogInfo Retrying])
             @ [SetTimeout r (parseInt (required env ''POLL_INTERVAL'')), SubmitNextBatch r]"
  have w1: "resume env r (Resolve 0 []) (resume env r x w) = emit ?it w"
    using while_iteration [OF Cons.prems, of env x 0 "[]"] by simp
  have "exited (emit ?it w) = None" "tasks (emit ?it w) r = AwaitFunc"
    using Cons.prems by (simp_all add: emit_def)
  from Cons.IH [OF this] Cons.prems(2) show ?case
    by (simp add: w1 in_while_deliver) (simp add: emit_def)
qed

lemma example_tx_only:
  "exited (run (exampleEnv ''true'' ''false'' ''false'') (Resolve 0 ''0xme'') (Resolve 0 ''0x1'')) = None"
  "tasks (run (exampleEnv ''true'' ''false'' ''false'') (Resolve 0 ''0xme'') (Resolve 0 ''0x1'')) TxBatch
     = AwaitFunc"
  by (simp_all add: example_defs)

theorem loop_survives_failures_witness:
  "exited (run (exampleEnv ''true'' ''false'' ''false'') (Resolve 0 ''0xme'') (Resolve 0 ''0x1'')) = None
   \<and> tasks (run (exampleEnv ''true'' ''false'' ''false'') (Resolve 0 ''0xme'') (Resolve 0 ''0x1'')) TxBatch
       = AwaitFunc
   \<and> exited (deliver (exampleEnv ''true'' ''false'' ''false'')
        (run (exampleEnv ''true'' ''false'' ''false'') (Resolve 0 ''0xme'') (Resolve 0 ''0x1''))
        [(TxBatch, Reject ''a''), (TxBatch, Resolve 0 []), (TxBatch, Reject ''b''),
         (TxBatch, Resolve 0 [])]) = None
   \<and> trace (deliver (exampleEnv ''true'' ''false'' ''false'')
        (run (exampleEnv ''true'' ''false'' ''false'') (Resolve 0 ''0xme'') (Resolve 0 ''0x1''))
        [(TxBatch, Reject ''a''), (TxBatch, Resolve 0 []), (TxBatch, Reject ''b''),
         (TxBatch, Resolve 0 [])]) =
      trace (run (exampleEnv ''true'' ''false'' ''false'') (Resolve 0 ''0xme'') (Resolve 0 ''0x1'')) @
      [LogError (ErrorSubmitting ''a''), LogInfo Retrying, SetTimeout TxBatch (Some 15),
       SubmitNextBatch TxBatch,
       LogError (ErrorSubmitting ''b''), LogInfo Retrying, SetTimeout TxBatch (Some 15),
       SubmitNextBatch TxBatch]"
  using loop_survives_failures [OF example_tx_only,
      of "exampleEnv ''true'' ''false'' ''false''" "[Reject ''a'', Reject ''b'']" "[]"]
    example_tx_only
  by (simp add: example_values del: deliver_Cons)

section \<open>Timer delays and submitter timeouts\<close>

lemma resume_SetTimeout:
  "SetTimeout r d \<in> set (trace (resume env r' x w)) \<Longrightarrow>
   SetTimeout r d \<in> set (trace w) \<or> d = parseInt (required env ''POLL_INTERVAL'')"
  by (auto simp: loop_defs split: pc.splits response.splits if_splits)

lemma deliver_SetTimeout:
  assumes "\<forall>r d. SetTimeout r d \<in> set (trace w) \<longrightarrow> d = parseInt (required env ''POLL_INTERVAL'')"
  shows "\<forall>r d. SetTimeout r d \<in> set (trace (deliver env w s)) \<longrightarrow>
           d = parseInt (required env ''POLL_INTERVAL'')"
  by (rule deliver_invariant [where P = "\<lambda>w. \<forall>r d. SetTimeout r d \<in> set (trace w) \<longrightarrow>
            d = parseInt (required env ''POLL_INTERVAL'')"])
     (use assms resume_SetTimeout in blast)+

lemma launch_SetTimeout: "SetTimeout r d \<in> set (trace (launch env w)) \<longleftrightarrow> SetTimeout r d \<in> set (trace w)"
  by (simp add: launch_def loop_def enterWhile_def emit_def goto_def Let_def)

lemma quiet_no_call: "quiet w \<Longrightarrow> caller e \<noteq> None \<Longrightarrow> e \<notin> set (trace w)"
  by (auto simp: quiet_def)

lemma run_SetTimeout: "SetTimeout r d \<notin> set (trace (run env a c))"
  using run_shape [of env a c] quiet_no_call [of _ "SetTimeout r d"]
  by (auto simp: launch_SetTimeout)

lemma resume_constructed:
  "NewTransactionBatchSubmitter args q \<in> set (trace (resume env r x w)) \<longleftrightarrow>
   NewTransactionBatchSubmitter args q \<in> set (trace w)"
  "NewStateBatchSubmitter args f fr \<in> set (trace (resume env r x w)) \<longleftrightarrow>
   NewStateBatchSubmitter args f fr \<in> set (trace w)"
  by (auto simp: loop_defs split: pc.splits response.splits if_splits)

lemma deliver_constructed:
  "NewTransactionBatchSubmitter args q \<in> set (trace (deliver env w s)) \<longleftrightarrow>
   NewTransactionBatchSubmitter args q \<in> set (trace w)"
  "NewStateBatchSubmitter args f fr \<in> set (trace (deliver env w s)) \<longleftrightarrow>
   NewStateBatchSubmitter args f fr \<in> set (trace w)"
  by (induction s arbitrary: w) (auto simp: resume_constructed)

lemma run_constructed:
  "NewTransactionBatchSubmitter args q \<in> set (trace (run env a c)) \<Longrightarrow> args = batchArgsOf env"
  "NewStateBatchSubmitter args f fr \<in> set (trace (run env a c)) \<Longrightarrow> args = batchArgsOf env"
  by (auto simp: run_def launch_def loop_def start_def enterWhile_def emit_def goto_def
        sequencerSigner_def fromMnemonic_def Let_def
      split: option.splits response.splits if_splits)

text \<open>
  C10. In every run, each timer the loops set is given the integer parsed from
  \<open>POLL_INTERVAL\<close> as its delay, with no scaling, and \<open>setTimeout\<close> counts in milliseconds;
  both submitters are constructed with the integers parsed from \<open>MAX_BATCH_SUBMISSION_TIME\<close>
  and \<open>RESUBMISSION_TIMEOUT\<close> multiplied by 1000.
\<close>

theorem poll_interval_is_not_scaled:
  "(SetTimeout r d \<in> set (trace (exec env a c s)) \<longrightarrow>
      d = parseInt (required env ''POLL_INTERVAL''))
   \<and> (NewTransactionBatchSubmitter args q \<in> set (trace (exec env a c s)) \<longrightarrow>
        maxBatchSubmissionTime args = times (parseInt (required env ''MAX_BATCH_SUBMISSION_TIME'')) 1000
        \<and> resubmissionTimeout args = times (parseInt (required env ''RESUBMISSION_TIMEOUT'')) 1000)
   \<and> (NewStateBatchSubmitter args' f fr \<in> set (trace (exec env a c s)) \<longrightarrow>
        maxBatchSubmissionTime args' = times (parseInt (required env ''MAX_BATCH_SUBMISSION_TIME'')) 1000
        \<and> resubmissionTimeout args' = times (parseInt (required env ''RESUBMISSION_TIMEOUT'')) 1000)"
proof -
  have "\<forall>r d. SetTimeout r d \<in> set (trace (exec env a c s)) \<longrightarrow>
          d = parseInt (required env ''POLL_INTERVAL'')"
    unfolding exec_def by (rule deliver_SetTimeout) (simp add: run_SetTimeout)
  moreover have "NewTransactionBatchSubmitter args q \<in> set (trace (exec env a c s)) \<longrightarrow>
      args = batchArgsOf env"
    unfolding exec_def by (simp add: deliver_constructed run_constructed)
  moreover have "NewStateBatchSubmitter args' f fr \<in> set (trace (exec env a c s)) \<longrightarrow>
      args' = batchArgsOf env"
    unfolding exec_def by (simp add: deliver_constructed run_constructed)
  ultimately show ?thesis by (auto simp: batchArgsOf_def)
qed

lemma example_both_trace:
  "trace (exec (exampleEnv ''true'' ''true'' ''false'') (Resolve 0 ''0xme'') (Resolve 0 ''0x1'')
       [(TxBatch, Resolve 0 [])]) =
   [LogInfo Starting, NewJsonRpcProvider ''http://l1'', NewOptimismProvider ''http://l2'',
    NewWallet ''0xk'', RunGetAddress, LogInfo (UsingAddress ''0xme''), SendEthChainId,
    NewTransactionBatchSubmitter (batchArgsOf (exampleEnv ''true'' ''true'' ''false'')) False,
    SetChainId TxBatch ''0x1'',
    NewStateBatchSubmitter (batchArgsOf (exampleEnv ''true'' ''true'' ''false'')) (Some 0) ''no fraud'',
    SetChainId StateBatch ''0x1'',
    SubmitNextBatch TxBatch, SubmitNextBatch StateBatch, SetTimeout TxBatch (Some 15)]"
  by (simp add: example_defs example_values)

theorem poll_interval_is_not_scaled_witness:
  "SetTimeout TxBatch (Some 15) \<in> set (trace
      (exec (exampleEnv ''true'' ''true'' ''false'') (Resolve 0 ''0xme'') (Resolve 0 ''0x1'')
        [(TxBatch, Resolve 0 [])]))
   \<and> parseInt (required (exampleEnv ''true'' ''true'' ''false'') ''POLL_INTERVAL'') = Some 15
   \<and> NewTransactionBatchSubmitter (batchArgsOf (exampleEnv ''true'' ''true'' ''false'')) False
        \<in> set (trace
      (exec (exampleEnv ''true'' ''true'' ''false'') (Resolve 0 ''0xme'') (Resolve 0 ''0x1'')
        [(TxBatch, Resolve 0 [])]))
   \<and> NewStateBatchSubmitter (batchArgsOf (exampleEnv ''true'' ''true'' ''false'')) (Some 0) ''no fraud''
        \<in> set (trace
      (exec (exampleEnv ''true'' ''true'' ''false'') (Resolve 0 ''0xme'') (Resolve 0 ''0x1'')
        [(TxBatch, Resolve 0 [])]))
   \<and> maxBatchSubmissionTime (batchArgsOf (exampleEnv ''true'' ''true'' ''false'')) = Some 4000
   \<and> resubmissionTimeout (batchArgsOf (exampleEnv ''true'' ''true'' ''false'')) = Some 7000"
  using poll_interval_is_not_scaled [of TxBatch "Some 15" "exampleEnv ''true'' ''true'' ''false''"
      "Resolve 0 ''0xme''" "Resolve 0 ''0x1''" "[(TxBatch, Resolve 0 [])]"
      "batchArgsOf (exampleEnv ''true'' ''true'' ''false'')" False
      "batchArgsOf (exampleEnv ''true'' ''true'' ''false'')" "Some 0" "''no fraud''"]
  by (simp add: example_both_trace example_values)

section \<open>Independence of the two loops\<close>

lemma resume_same_view:
  assumes "tasks w1 r = tasks w2 r" "calls r (trace w1) = calls r (trace w2)"
    "exited w1 = None" "exited w2 = None"
  shows "tasks (resume env r x w1) r = tasks (resume env r x w2) r
       \<and> calls r (trace (resume env r x w1)) = calls r (trace (resume env r x w2))
       \<and> exited (resume env r x w1) = exited (resume env r x w2)"
  using assms by (auto simp: loop_defs calls_def split: pc.splits response.splits)

text \<open>What a loop instance does depends on the answers it receives alone, as long as
  the process has not exited.\<close>

lemma projection:
  "exited (deliver env w s) = None \<Longrightarrow>
   tasks (deliver env w s) r = tasks (deliver env w (filter (\<lambda>e. fst e = r) s)) r
   \<and> calls r (trace (deliver env w s)) = calls r (trace (deliver env w (filter (\<lambda>e. fst e = r) s)))
   \<and> exited (deliver env w (filter (\<lambda>e. fst e = r) s)) = None"
proof (induction s rule: rev_induct)
  case Nil
  then show ?case by simp
next
  case (snoc e s)
  obtain r' x where e: "e = (r', x)" by (cases e)
  have full: "deliver env w (s @ [e]) = resume env r' x (deliver env w s)"
    by (simp add: deliver_append e)
  with snoc.prems have ex: "exited (deliver env w s) = None"
    by (auto dest: resume_exit_mono)
  note IH = snoc.IH [OF ex]
  show ?case
  proof (cases "r' = r")
    case True
    have "deliver env w (filter (\<lambda>e. fst e = r) (s @ [e]))
        = resume env r x (deliver env w (filter (\<lambda>e. fst e = r) s))"
      using True by (simp add: e deliver_append)
    moreover have "tasks (resume env r x (deliver env w s)) r
          = tasks (resume env r x (deliver env w (filter (\<lambda>e. fst e = r) s))) r
       \<and> calls r (trace (resume env r x (deliver env w s)))
          = calls r (trace (resume env r x (deliver env w (filter (\<lambda>e. fst e = r) s))))
       \<and> exited (resume env r x (deliver env w s))
          = exited (resume env r x (deliver env w (filter (\<lambda>e. fst e = r) s)))"
      using IH ex by (intro resume_same_view) simp_all
    ultimately show ?thesis using snoc.prems True by (simp add: full)
  next
    case False
    then have "filter (\<lambda>e. fst e = r) (s @ [e]) = filter (\<lambda>e. fst e = r) s"
      by (simp add: e)
    then show ?thesis using IH False
      by (simp add: full resume_other_task resume_other_calls)
  qed
qed

text \<open>
  C5. Take two runs from the same configuration in which one loop, say the state-batch
  loop, receives the same answers in the same order, while the other loop receives any
  answers at any moments: its \<open>submitNextBatch\<close> may be rejected every time in one run and
  never in the other. As long as neither process has exited, which only a failing
  reconciliation causes, the first loop is at the same control point in both runs and
  has made the same sequence of calls, that is the same calls of \<open>submitNextBatch\<close>
  separated by timers with the same delay.
\<close>

theorem loops_do_not_interfere:
  assumes "filter (\<lambda>e. fst e = r) s1 = filter (\<lambda>e. fst e = r) s2"
    and "exited (exec env a c s1) = None" and "exited (exec env a c s2) = None"
  shows "tasks (exec env a c s1) r = tasks (exec env a c s2) r
       \<and> calls r (trace (exec env a c s1)) = calls r (trace (exec env a c s2))"
  using projection [of env "run env a c" s1 r] projection [of env "run env a c" s2 r] assms
  by (simp add: exec_def)

lemma example_both_exited:
  "exited (exec (exampleEnv ''true'' ''true'' ''false'') (Resolve 0 ''0xme'') (Resolve 0 ''0x1'')
     [(TxBatch, Reject ''boom''), (StateBatch, Resolve 0 []), (TxBatch, Resolve 0 []),
      (TxBatch, Reject ''boom''), (StateBatch, Resolve 0 [])]) = None"
  "exited (exec (exampleEnv ''true'' ''true'' ''false'') (Resolve 0 ''0xme'') (Resolve 0 ''0x1'')
     [(StateBatch, Resolve 0 []), (TxBatch, Resolve 0 []), (StateBatch, Resolve 0 [])]) = None"
  by (simp_all add: example_defs)

theorem loops_do_not_interfere_witness:
  "filter (\<lambda>e. fst e = StateBatch)
     [(TxBatch, Reject ''boom''), (StateBatch, Resolve 0 []), (TxBatch, Resolve 0 []),
      (TxBatch, Reject ''boom''), (StateBatch, Resolve 0 [])]
   = filter (\<lambda>e. fst e = StateBatch)
     [(StateBatch, Resolve 0 []), (TxBatch, Resolve 0 []), (StateBatch, Resolve 0 [])]
   \<and> exited (exec (exampleEnv ''true'' ''true'' ''false'') (Resolve 0 ''0xme'') (Resolve 0 ''0x1'')
     [(TxBatch, Reject ''boom''), (StateBatch, Resolve 0 []), (TxBatch, Resolve 0 []),
      (TxBatch, Reject ''boom''), (StateBatch, Resolve 0 [])]) = None
   \<and> exited (exec (exampleEnv ''true'' ''true'' ''false'') (Resolve 0 ''0xme'') (Resolve 0 ''0x1'')
     [(StateBatch, Resolve 0 []), (TxBatch, Resolve 0 []), (StateBatch, Resolve 0 [])]) = None
   \<and> calls StateBatch (trace (exec (exampleEnv ''true'' ''true'' ''false'') (Resolve 0 ''0xme'')
       (Resolve 0 ''0x1'')
       [(TxBatch, Reject ''boom''), (StateBatch, Resolve 0 []), (TxBatch, Resolve 0 []),
        (TxBatch, Reject ''boom''), (StateBatch, Resolve 0 [])]))
     = calls StateBatch (trace (exec (exampleEnv ''true'' ''true'' ''false'') (Resolve 0 ''0xme'')
       (Resolve 0 ''0x1'')
       [(StateBatch, Resolve 0 []), (TxBatch, Resolve 0 []), (StateBatch, Resolve 0 [])]))"
proof -
  have f: "filter (\<lambda>e. fst e = StateBatch)
     [(TxBatch, Reject ''boom''), (StateBatch, Resolve 0 []), (TxBatch, Resolve 0 []),
      (TxBatch, Reject ''boom''), (StateBatch, Resolve 0 [])]
   = filter (\<lambda>e. fst e = StateBatch)
     [(StateBatch, Resolve 0 []), (TxBatch, Resolve 0 []), (StateBatch, Resolve 0 [])]"
    by simp
  show ?thesis
    using loops_do_not_interfere [OF f example_both_exited] example_both_exited
    by simp
qed

section \<open>Reconciliation and the launches\<close>

lemma onceOnly_resume: "onceOnly r w \<Longrightarrow> onceOnly r (resume env r' x w)"
  by (cases "r' = r")
     (auto simp: onceOnly_def loop_defs split: pc.splits response.splits if_splits)

lemma quiet_onceOnly: "quiet w \<Longrightarrow> onceOnly r w"
  by (auto simp: onceOnly_def quiet_count) (auto simp: quiet_def)

lemma onceOnly_loop_other: "r' \<noteq> r \<Longrightarrow> onceOnly r w \<Longrightarrow> onceOnly r (loop env r' w)"
  by (auto simp: onceOnly_def loop_def enterWhile_def emit_def goto_def)

lemma onceOnly_loop: "tasks w r = NotStarted \<Longrightarrow> onceOnly r w \<Longrightarrow> onceOnly r (loop env r w)"
  by (auto simp: onceOnly_def loop_def enterWhile_def emit_def goto_def)

lemma onceOnly_launch: "quiet w \<Longrightarrow> onceOnly r (launch env w)"
proof -
  assume q: "quiet w"
  then have n: "tasks w r = NotStarted" and o: "onceOnly r w"
    by (simp_all add: quiet_def quiet_onceOnly)
  show ?thesis
    using n o by (cases r)
      (simp_all add: launch_def Let_def onceOnly_loop onceOnly_loop_other loop_other_task)
qed

lemma onceOnly_run: "onceOnly r (run env a c)"
  using run_shape [of env a c] by (auto simp: quiet_onceOnly onceOnly_launch)

lemma onceOnly_exec: "onceOnly r (exec env a c s)"
  unfolding exec_def
  by (rule deliver_invariant [where P = "onceOnly r"]) (simp_all add: onceOnly_run onceOnly_resume)

lemma disabled_counts:
  assumes "env (runFlag r) \<noteq> Some ''true''"
  shows "count_list (trace (exec env a c s)) (GetTransactionCount r b) = 0"
proof -
  have "calls r (trace (exec env a c s)) = []"
    using exec_disabled [where env = env and r = r, OF assms] by simp
  then have "GetTransactionCount r b \<notin> set (trace (exec env a c s))"
    by (auto simp: calls_def filter_empty_conv)
  then show ?thesis by (simp add: count_list_0_iff)
qed

text \<open>
  C1, as the code has it. Reconciliation is part of \<open>loop\<close>, so it runs once for each loop
  that is launched: in every run each loop instance reads the pending count at most once
  and the latest count at most once, and as long as its reconciliation is in progress
  that instance has not called \<open>submitNextBatch\<close>. When the other role is disabled, the
  other role reads no count and submits no batch, so reconciliation then runs at most
  once in the process and is over before any call of \<open>submitNextBatch\<close>.
\<close>

theorem reconciliation_once_per_loop:
  "count_list (trace (exec env a c s)) (GetTransactionCount r Pending) \<le> 1
   \<and> count_list (trace (exec env a c s)) (GetTransactionCount r Latest) \<le> 1
   \<and> (reconciling (tasks (exec env a c s) r) \<longrightarrow>
        SubmitNextBatch r \<notin> set (trace (exec env a c s)))
   \<and> (env (runFlag r') \<noteq> Some ''true'' \<longrightarrow>
        count_list (trace (exec env a c s)) (GetTransactionCount r' Pending) = 0
        \<and> count_list (trace (exec env a c s)) (GetTransactionCount r' Latest) = 0
        \<and> SubmitNextBatch r' \<notin> set (trace (exec env a c s)))"
proof -
  have "onceOnly r (exec env a c s)" by (rule onceOnly_exec)
  moreover have "env (runFlag r') \<noteq> Some ''true'' \<Longrightarrow>
      SubmitNextBatch r' \<notin> set (trace (exec env a c s))"
    using exec_disabled [where env = env and r = r', of a c s] by (simp add: no_calls_no_submit)
  ultimately show ?thesis
    by (simp add: onceOnly_def disabled_counts)
qed

lemma example_tx_clear:
  "exec (exampleEnv ''true'' ''false'' ''true'') (Resolve 0 ''0xme'') (Resolve 0 ''0x1'')
     [(TxBatch, Resolve 3 [])] =
   \<lparr> tasks = (\<lambda>_. NotStarted)(TxBatch := AwaitLatest 3),
     trace = [LogInfo Starting, NewJsonRpcProvider ''http://l1'', NewOptimismProvider ''http://l2'',
        NewWallet ''0xk'', RunGetAddress, LogInfo (UsingAddress ''0xme''), SendEthChainId,
        NewTransactionBatchSubmitter (batchArgsOf (exampleEnv ''true'' ''false'' ''true'')) False,
        SetChainId TxBatch ''0x1'',
        NewStateBatchSubmitter (batchArgsOf (exampleEnv ''true'' ''false'' ''true'')) (Some 0)
          ''no fraud'',
        SetChainId StateBatch ''0x1'',
        GetTransactionCount TxBatch Pending, GetTransactionCount TxBatch Latest],
     exited = None, rejected = None \<rparr>"
  by (simp add: example_defs example_values)

theorem reconciliation_once_per_loop_witness:
  "reconciling (tasks (exec (exampleEnv ''true'' ''false'' ''true'') (Resolve 0 ''0xme'')
       (Resolve 0 ''0x1'') [(TxBatch, Resolve 3 [])]) TxBatch)
   \<and> SubmitNextBatch TxBatch \<notin> set (trace (exec (exampleEnv ''true'' ''false'' ''true'')
       (Resolve 0 ''0xme'') (Resolve 0 ''0x1'') [(TxBatch, Resolve 3 [])]))
   \<and> exampleEnv ''true'' ''false'' ''true'' (runFlag StateBatch) \<noteq> Some ''true''
   \<and> count_list (trace (exec (exampleEnv ''true'' ''false'' ''true'')
       (Resolve 0 ''0xme'') (Resolve 0 ''0x1'') [(TxBatch, Resolve 3 [])]))
       (GetTransactionCount StateBatch Pending) = 0
   \<and> SubmitNextBatch StateBatch \<notin> set (trace (exec (exampleEnv ''true'' ''false'' ''true'')
       (Resolve 0 ''0xme'') (Resolve 0 ''0x1'') [(TxBatch, Resolve 3 [])]))
   \<and> count_list (trace (exec (exampleEnv ''true'' ''false'' ''true'')
       (Resolve 0 ''0xme'') (Resolve 0 ''0x1'') [(TxBatch, Resolve 3 [])]))
       (GetTransactionCount TxBatch Pending) \<le> 1"
proof -
  have h1: "reconciling (tasks (exec (exampleEnv ''true'' ''false'' ''true'') (Resolve 0 ''0xme'')
       (Resolve 0 ''0x1'') [(TxBatch, Resolve 3 [])]) TxBatch)"
    by (simp add: example_tx_clear)
  have h2: "exampleEnv ''true'' ''false'' ''true'' (runFlag StateBatch) \<noteq> Some ''true''"
    by (simp add: exampleEnv_def)
  show ?thesis
    using h1 h2 reconciliation_once_per_loop [of "exampleEnv ''true'' ''false'' ''true''"
        "Resolve 0 ''0xme''" "Resolve 0 ''0x1''" "[(TxBatch, Resolve 3 [])]" TxBatch StateBatch]
    by simp
qed

text \<open>
  Against C1 as stated: with both roles enabled and the flag set, the pending count is
  read twice, once by each loop, and the transaction loop, whose own reconciliation has
  found nothing to clear, calls \<open>submitNextBatch\<close> while the reconciliation of the state
  loop still waits for its first answer.
\<close>

theorem reconciliation_once_counterexample:
  "clearPendingTxs (exampleEnv ''true'' ''true'' ''true'')
   \<and> count_list (trace (exec (exampleEnv ''true'' ''true'' ''true'') (Resolve 0 ''0xme'')
        (Resolve 0 ''0x1'') [(TxBatch, Resolve 0 []), (TxBatch, Resolve 0 [])]))
        (GetTransactionCount TxBatch Pending) = 1
   \<and> count_list (trace (exec (exampleEnv ''true'' ''true'' ''true'') (Resolve 0 ''0xme'')
        (Resolve 0 ''0x1'') [(TxBatch, Resolve 0 []), (TxBatch, Resolve 0 [])]))
        (GetTransactionCount StateBatch Pending) = 1
   \<and> SubmitNextBatch TxBatch \<in> set (trace (exec (exampleEnv ''true'' ''true'' ''true'')
        (Resolve 0 ''0xme'') (Resolve 0 ''0x1'') [(TxBatch, Resolve 0 []), (TxBatch, Resolve 0 [])]))
   \<and> tasks (exec (exampleEnv ''true'' ''true'' ''true'') (Resolve 0 ''0xme'')
        (Resolve 0 ''0x1'') [(TxBatch, Resolve 0 []), (TxBatch, Resolve 0 [])]) StateBatch
      = AwaitPending"
  by (simp add: example_defs)

section \<open>A failing reconciliation\<close>

lemma resume_reject_reconciling:
  "reconciling (tasks w r) \<Longrightarrow> exited w = None \<Longrightarrow> resume env r (Reject err) w = catchClear err w"
  by (cases "tasks w r") (simp_all add: resume_def)

text \<open>
  C4, as the code has it. When an await of a loop's reconciliation is rejected (reading a
  count, asking for the address, broadcasting, or waiting for the receipt), the error is
  logged and the process exits with status 1. That loop has never called
  \<open>submitNextBatch\<close>, and nothing at all happens after the exit. If the other role is
  disabled, no call of \<open>submitNextBatch\<close> was ever made; a loop of the other role, when
  enabled, may have made such calls before the failure.
\<close>

theorem failed_reconciliation_exits:
  assumes "reconciling (tasks (exec env a c s) r)" and "exited (exec env a c s) = None"
  shows "exited (exec env a c (s @ [(r, Reject err)])) = Some 1
       \<and> trace (exec env a c (s @ [(r, Reject err)])) =
           trace (exec env a c s) @ [LogError (CannotClear err), Exit 1]
       \<and> SubmitNextBatch r \<notin> set (trace (exec env a c (s @ [(r, Reject err)])))
       \<and> exec env a c (s @ (r, Reject err) # s') = exec env a c (s @ [(r, Reject err)])
       \<and> (env (runFlag r') \<noteq> Some ''true'' \<longrightarrow>
            SubmitNextBatch r' \<notin> set (trace (exec env a c (s @ [(r, Reject err)]))))"
proof -
  let ?w = "exec env a c s"
  have step: "exec env a c (s @ [(r, Reject err)]) = catchClear err ?w"
    using assms by (simp add: exec_def deliver_append resume_reject_reconciling)
  have after: "exec env a c (s @ (r, Reject err) # s') = exec env a c (s @ [(r, Reject err)])"
  proof -
    have "exec env a c (s @ (r, Reject err) # s') =
          deliver env (exec env a c (s @ [(r, Reject err)])) s'"
      by (simp add: exec_def deliver_append)
    also have "\<dots> = exec env a c (s @ [(r, Reject err)])"
      by (rule deliver_after_exit) (simp add: step catchClear_def emit_def)
    finally show ?thesis .
  qed
  have "onceOnly r ?w" by (rule onceOnly_exec)
  with assms(1) have quiet: "SubmitNextBatch r \<notin> set (trace ?w)"
    by (simp add: onceOnly_def)
  have other: "env (runFlag r') \<noteq> Some ''true'' \<Longrightarrow>
      SubmitNextBatch r' \<notin> set (trace (exec env a c (s @ [(r, Reject err)])))"
    using exec_disabled [where env = env and r = r', of a c "s @ [(r, Reject err)]"]
    by (simp add: no_calls_no_submit)
  show ?thesis
    using quiet after other by (simp add: step catchClear_def emit_def)
qed

lemma example_tx_clear_sending:
  "tasks (exec (exampleEnv ''true'' ''false'' ''true'') (Resolve 0 ''0xme'') (Resolve 0 ''0x1'')
     [(TxBatch, Resolve 3 []), (TxBatch, Resolve 2 []), (TxBatch, Resolve 0 ''0xme'')]) TxBatch
   = AwaitSend 3 2"
  "exited (exec (exampleEnv ''true'' ''false'' ''true'') (Resolve 0 ''0xme'') (Resolve 0 ''0x1'')
     [(TxBatch, Resolve 3 []), (TxBatch, Resolve 2 []), (TxBatch, Resolve 0 ''0xme'')]) = None"
  by (simp_all add: example_defs)

theorem failed_reconciliation_exits_witness:
  "reconciling (tasks (exec (exampleEnv ''true'' ''false'' ''true'') (Resolve 0 ''0xme'')
     (Resolve 0 ''0x1'')
     [(TxBatch, Resolve 3 []), (TxBatch, Resolve 2 []), (TxBatch, Resolve 0 ''0xme'')]) TxBatch)
   \<and> exited (exec (exampleEnv ''true'' ''false'' ''true'') (Resolve 0 ''0xme'') (Resolve 0 ''0x1'')
     [(TxBatch, Resolve 3 []), (TxBatch, Resolve 2 []), (TxBatch, Resolve 0 ''0xme'')]) = None
   \<and> exampleEnv ''true'' ''false'' ''true'' (runFlag StateBatch) \<noteq> Some ''true''
   \<and> exited (exec (exampleEnv ''true'' ''false'' ''true'') (Resolve 0 ''0xme'') (Resolve 0 ''0x1'')
     ([(TxBatch, Resolve 3 []), (TxBatch, Resolve 2 []), (TxBatch, Resolve 0 ''0xme'')]
      @ [(TxBatch, Reject ''underpriced'')])) = Some 1
   \<and> SubmitNextBatch TxBatch \<notin> set (trace (exec (exampleEnv ''true'' ''false'' ''true'')
     (Resolve 0 ''0xme'') (Resolve 0 ''0x1'')
     ([(TxBatch, Resolve 3 []), (TxBatch, Resolve 2 []), (TxBatch, Resolve 0 ''0xme'')]
      @ [(TxBatch, Reject ''underpriced'')])))
   \<and> SubmitNextBatch StateBatch \<notin> set (trace (exec (exampleEnv ''true'' ''false'' ''true'')
     (Resolve 0 ''0xme'') (Resolve 0 ''0x1'')
     ([(TxBatch, Resolve 3 []), (TxBatch, Resolve 2 []), (TxBatch, Resolve 0 ''0xme'')]
      @ [(TxBatch, Reject ''underpriced'')])))"
proof -
  have h1: "reconciling (tasks (exec (exampleEnv ''true'' ''false'' ''true'') (Resolve 0 ''0xme'')
     (Resolve 0 ''0x1'')
     [(TxBatch, Resolve 3 []), (TxBatch, Resolve 2 []), (TxBatch, Resolve 0 ''0xme'')]) TxBatch)"
    by (simp add: example_tx_clear_sending)
  have h3: "exampleEnv ''true'' ''false'' ''true'' (runFlag StateBatch) \<noteq> Some ''true''"
    by (simp add: exampleEnv_def)
  show ?thesis
    using h1 h3 example_tx_clear_sending(2)
      failed_reconciliation_exits [OF h1 example_tx_clear_sending(2),
        of "''underpriced''" "[]" StateBatch]
    by blast
qed

text \<open>
  Against C4 as stated: with both roles enabled, the state loop finishes its own
  reconciliation and calls \<open>submitNextBatch\<close>; then the first read of the transaction
  loop's reconciliation fails and the process exits with status 1.
\<close>

theorem failed_reconciliation_counterexample:
  "tasks (exec (exampleEnv ''true'' ''true'' ''true'') (Resolve 0 ''0xme'') (Resolve 0 ''0x1'')
     [(StateBatch, Resolve 0 []), (StateBatch, Resolve 0 [])]) TxBatch = AwaitPending
   \<and> exited (exec (exampleEnv ''true'' ''true'' ''true'') (Resolve 0 ''0xme'') (Resolve 0 ''0x1'')
     [(StateBatch, Resolve 0 []), (StateBatch, Resolve 0 []), (TxBatch, Reject ''timeout'')])
     = Some 1
   \<and> trace (exec (exampleEnv ''true'' ''true'' ''true'') (Resolve 0 ''0xme'') (Resolve 0 ''0x1'')
     [(StateBatch, Resolve 0 []), (StateBatch, Resolve 0 []), (TxBatch, Reject ''timeout'')])
     = trace (run (exampleEnv ''true'' ''true'' ''true'') (Resolve 0 ''0xme'') (Resolve 0 ''0x1''))
       @ [GetTransactionCount StateBatch Latest, SubmitNextBatch StateBatch,
          LogError (CannotClear ''timeout''), Exit 1]"
  by (simp add: example_defs)

section \<open>Fatal start-up errors\<close>

lemma signer_None:
  "sequencerSigner env = None \<longleftrightarrow>
   \<not> truthy (env ''SEQUENCER_PRIVATE_KEY'') \<and> \<not> truthy (env ''MNEMONIC'')"
  by (auto simp: sequencerSigner_def fromMnemonic_def truthy_def split: option.splits)

lemma exec_missing:
  assumes "firstMissing env requiredEnvVars = Some v"
  shows "exec env a c s = \<lparr> tasks = (\<lambda>_. NotStarted),
           trace = [LogInfo Starting, LogError (MissingVariable v), Exit 1],
           exited = Some 1, rejected = None \<rparr>"
  unfolding exec_def run_missing [OF assms] by (rule all_NotStarted_deliver) simp

lemma exec_no_signer:
  assumes "firstMissing env requiredEnvVars = None" "sequencerSigner env = None"
  shows "exec env a c s = \<lparr> tasks = (\<lambda>_. NotStarted),
           trace = [LogInfo Starting, NewJsonRpcProvider (required env ''L1_NODE_WEB3_URL''),
                    NewOptimismProvider (required env ''L2_NODE_WEB3_URL'')],
           exited = None,
           rejected = Some ''Must pass one of SEQUENCER_PRIVATE_KEY or MNEMONIC'' \<rparr>"
  unfolding exec_def run_no_signer [OF assms] by (rule all_NotStarted_deliver) simp

lemma missing_found:
  assumes "k \<in> set requiredEnvVars" "\<not> truthy (env k)"
  shows "\<exists>v. firstMissing env requiredEnvVars = Some v"
proof (cases "firstMissing env requiredEnvVars")
  case None
  with assms show ?thesis by (simp add: firstMissing_None)
next
  case (Some v)
  then show ?thesis by simp
qed

lemma resume_rejected: "rejected (resume env r x w) = rejected w"
  by (auto simp: loop_defs split: pc.splits response.splits)

text \<open>
  C8. When a required variable is unset or empty, the first such variable is logged
  and \<open>exit(1)\<close> is called: the process ends with status 1, nothing has been constructed
  and no loop is launched. When all are set and neither \<open>SEQUENCER_PRIVATE_KEY\<close> nor
  \<open>MNEMONIC\<close> is, \<open>run\<close> throws "Must pass one of SEQUENCER_PRIVATE_KEY or MNEMONIC" after
  the two providers were built: the process ends with status 1, no submitter has been
  constructed and no loop is launched. A loop that is past its reconciliation never
  changes the exit status, whatever its awaits settle to.
\<close>

theorem startup_failures:
  "(k \<in> set requiredEnvVars \<and> \<not> truthy (env k) \<longrightarrow>
      exitStatus (exec env a c s) = Some 1 \<and>
      (\<exists>v. v \<in> set requiredEnvVars \<and> \<not> truthy (env v) \<and>
         exec env a c s = \<lparr> tasks = (\<lambda>_. NotStarted),
           trace = [LogInfo Starting, LogError (MissingVariable v), Exit 1],
           exited = Some 1, rejected = None \<rparr>))
   \<and> (firstMissing env requiredEnvVars = None
        \<and> \<not> truthy (env ''SEQUENCER_PRIVATE_KEY'') \<and> \<not> truthy (env ''MNEMONIC'') \<longrightarrow>
      exitStatus (exec env a c s) = Some 1 \<and>
      exec env a c s = \<lparr> tasks = (\<lambda>_. NotStarted),
           trace = [LogInfo Starting, NewJsonRpcProvider (required env ''L1_NODE_WEB3_URL''),
                    NewOptimismProvider (required env ''L2_NODE_WEB3_URL'')],
           exited = None,
           rejected = Some ''Must pass one of SEQUENCER_PRIVATE_KEY or MNEMONIC'' \<rparr>)
   \<and> (tasks w r = AwaitFunc \<or> tasks w r = AwaitSleep \<longrightarrow>
        exited (resume env r x w) = exited w
        \<and> exitStatus (resume env r x w) = exitStatus w)"
proof (intro conjI impI)
  assume "k \<in> set requiredEnvVars \<and> \<not> truthy (env k)"
  then obtain v where v: "firstMissing env requiredEnvVars = Some v"
    using missing_found by blast
  from exec_missing [OF v, of a c s]
  show "exitStatus (exec env a c s) = Some 1"
    by (simp add: exitStatus_def)
  from firstMissing_Some [OF v] exec_missing [OF v, of a c s]
  show "\<exists>v. v \<in> set requiredEnvVars \<and> \<not> truthy (env v) \<and>
         exec env a c s = \<lparr> tasks = (\<lambda>_. NotStarted),
           trace = [LogInfo Starting, LogError (MissingVariable v), Exit 1],
           exited = Some 1, rejected = None \<rparr>"
    by blast
next
  assume h: "firstMissing env requiredEnvVars = None
        \<and> \<not> truthy (env ''SEQUENCER_PRIVATE_KEY'') \<and> \<not> truthy (env ''MNEMONIC'')"
  then show e: "exec env a c s = \<lparr> tasks = (\<lambda>_. NotStarted),
           trace = [LogInfo Starting, NewJsonRpcProvider (required env ''L1_NODE_WEB3_URL''),
                    NewOptimismProvider (required env ''L2_NODE_WEB3_URL'')],
           exited = None,
           rejected = Some ''Must pass one of SEQUENCER_PRIVATE_KEY or MNEMONIC'' \<rparr>"
    by (intro exec_no_signer) (simp_all add: signer_None)
  show "exitStatus (exec env a c s) = Some 1"
    unfolding e by (simp add: exitStatus_def)
next
  assume "tasks w r = AwaitFunc \<or> tasks w r = AwaitSleep"
  then show "exited (resume env r x w) = exited w" by (rule resume_in_while)
next
  assume "tasks w r = AwaitFunc \<or> tasks w r = AwaitSleep"
  then have "exited (resume env r x w) = exited w" by (rule resume_in_while)
  then show "exitStatus (resume env r x w) = exitStatus w"
    by (simp add: exitStatus_def resume_rejected split: option.splits)
qed

lemma example_no_key:
  "firstMissing ((exampleEnv ''true'' ''true'' ''false'')(''SEQUENCER_PRIVATE_KEY'' := None))
     requiredEnvVars = None"
  "\<not> truthy (((exampleEnv ''true'' ''true'' ''false'')(''SEQUENCER_PRIVATE_KEY'' := None))
     ''SEQUENCER_PRIVATE_KEY'')"
  "\<not> truthy (((exampleEnv ''true'' ''true'' ''false'')(''SEQUENCER_PRIVATE_KEY'' := None))
     ''MNEMONIC'')"
  by (simp_all add: requiredEnvVars_def truthy_def exampleEnv_def)

lemma example_no_poll:
  "''POLL_INTERVAL'' \<in> set requiredEnvVars"
  "\<not> truthy (((exampleEnv ''true'' ''true'' ''false'')(''POLL_INTERVAL'' := Some [])) ''POLL_INTERVAL'')"
  by (simp_all add: requiredEnvVars_def truthy_def)

lemma example_in_while:
  "tasks (run (exampleEnv ''true'' ''false'' ''false'') (Resolve 0 ''0xme'') (Resolve 0 ''0x1'')) TxBatch
     = AwaitFunc
   \<or> tasks (run (exampleEnv ''true'' ''false'' ''false'') (Resolve 0 ''0xme'') (Resolve 0 ''0x1'')) TxBatch
     = AwaitSleep"
  "exitStatus (run (exampleEnv ''true'' ''false'' ''false'') (Resolve 0 ''0xme'') (Resolve 0 ''0x1''))
     = None"
  by (simp_all add: example_defs exitStatus_def)

theorem startup_failures_witness:
  "''POLL_INTERVAL'' \<in> set requiredEnvVars
   \<and> \<not> truthy (((exampleEnv ''true'' ''true'' ''false'')(''POLL_INTERVAL'' := Some [])) ''POLL_INTERVAL'')
   \<and> exitStatus (exec ((exampleEnv ''true'' ''true'' ''false'')(''POLL_INTERVAL'' := Some []))
        (Resolve 0 ''0xme'') (Resolve 0 ''0x1'') [(TxBatch, Resolve 0 [])]) = Some 1
   \<and> firstMissing ((exampleEnv ''true'' ''true'' ''false'')(''SEQUENCER_PRIVATE_KEY'' := None))
        requiredEnvVars = None
   \<and> \<not> truthy (((exampleEnv ''true'' ''true'' ''false'')(''SEQUENCER_PRIVATE_KEY'' := None))
        ''SEQUENCER_PRIVATE_KEY'')
   \<and> \<not> truthy (((exampleEnv ''true'' ''true'' ''false'')(''SEQUENCER_PRIVATE_KEY'' := None))
        ''MNEMONIC'')
   \<and> exitStatus (exec ((exampleEnv ''true'' ''true'' ''false'')(''SEQUENCER_PRIVATE_KEY'' := None))
        (Resolve 0 ''0xme'') (Resolve 0 ''0x1'') [(TxBatch, Resolve 0 [])]) = Some 1
   \<and> rejected (exec ((exampleEnv ''true'' ''true'' ''false'')(''SEQUENCER_PRIVATE_KEY'' := None))
        (Resolve 0 ''0xme'') (Resolve 0 ''0x1'') [(TxBatch, Resolve 0 [])])
      = Some ''Must pass one of SEQUENCER_PRIVATE_KEY or MNEMONIC''
   \<and> tasks (exec ((exampleEnv ''true'' ''true'' ''false'')(''SEQUENCER_PRIVATE_KEY'' := None))
        (Resolve 0 ''0xme'') (Resolve 0 ''0x1'') [(TxBatch, Resolve 0 [])]) TxBatch = NotStarted
   \<and> (tasks (run (exampleEnv ''true'' ''false'' ''false'') (Resolve 0 ''0xme'') (Resolve 0 ''0x1''))
         TxBatch = AwaitFunc
       \<or> tasks (run (exampleEnv ''true'' ''false'' ''false'') (Resolve 0 ''0xme'') (Resolve 0 ''0x1''))
         TxBatch = AwaitSleep)
   \<and> exitStatus (resume (exampleEnv ''true'' ''false'' ''false'') TxBatch (Reject ''reverted'')
        (run (exampleEnv ''true'' ''false'' ''false'') (Resolve 0 ''0xme'') (Resolve 0 ''0x1'')))
      = None"
proof -
  note inst = startup_failures [where env = "(exampleEnv ''true'' ''true'' ''false'')(''POLL_INTERVAL'' := Some [])"
      and k = "''POLL_INTERVAL''" and a = "Resolve 0 ''0xme''" and c = "Resolve 0 ''0x1''"
      and s = "[(TxBatch, Resolve 0 [])]" and w = start and r = TxBatch and x = "Resolve 0 []"]
    startup_failures [where env = "(exampleEnv ''true'' ''true'' ''false'')(''SEQUENCER_PRIVATE_KEY'' := None)"
      and k = "''POLL_INTERVAL''" and a = "Resolve 0 ''0xme''" and c = "Resolve 0 ''0x1''"
      and s = "[(TxBatch, Resolve 0 [])]" and w = start and r = TxBatch and x = "Resolve 0 []"]
    startup_failures [where env = "exampleEnv ''true'' ''false'' ''false''"
      and k = "''POLL_INTERVAL''" and a = "Resolve 0 ''0xme''" and c = "Resolve 0 ''0x1''"
      and s = "[]"
      and w = "run (exampleEnv ''true'' ''false'' ''false'') (Resolve 0 ''0xme'') (Resolve 0 ''0x1'')"
      and r = TxBatch and x = "Reject ''reverted''"]
  have one: "exitStatus (exec ((exampleEnv ''true'' ''true'' ''false'')(''POLL_INTERVAL'' := Some []))
        (Resolve 0 ''0xme'') (Resolve 0 ''0x1'') [(TxBatch, Resolve 0 [])]) = Some 1"
    using example_no_poll inst(1) by blast
  have two: "exitStatus (exec ((exampleEnv ''true'' ''true'' ''false'')(''SEQUENCER_PRIVATE_KEY'' := None))
        (Resolve 0 ''0xme'') (Resolve 0 ''0x1'') [(TxBatch, Resolve 0 [])]) = Some 1"
    "exec ((exampleEnv ''true'' ''true'' ''false'')(''SEQUENCER_PRIVATE_KEY'' := None))
        (Resolve 0 ''0xme'') (Resolve 0 ''0x1'') [(TxBatch, Resolve 0 [])]
      = \<lparr> tasks = (\<lambda>_. NotStarted),
           trace = [LogInfo Starting,
             NewJsonRpcProvider (required ((exampleEnv ''true'' ''true'' ''false'')
                (''SEQUENCER_PRIVATE_KEY'' := None)) ''L1_NODE_WEB3_URL''),
             NewOptimismProvider (required ((exampleEnv ''true'' ''true'' ''false'')
                (''SEQUENCER_PRIVATE_KEY'' := None)) ''L2_NODE_WEB3_URL'')],
           exited = None,
           rejected = Some ''Must pass one of SEQUENCER_PRIVATE_KEY or MNEMONIC'' \<rparr>"
    using example_no_key inst(2) by blast+
  from two(2) have three: "rejected (exec ((exampleEnv ''true'' ''true'' ''false'')(''SEQUENCER_PRIVATE_KEY'' := None))
        (Resolve 0 ''0xme'') (Resolve 0 ''0x1'') [(TxBatch, Resolve 0 [])])
      = Some ''Must pass one of SEQUENCER_PRIVATE_KEY or MNEMONIC''"
    "tasks (exec ((exampleEnv ''true'' ''true'' ''false'')(''SEQUENCER_PRIVATE_KEY'' := None))
        (Resolve 0 ''0xme'') (Resolve 0 ''0x1'') [(TxBatch, Resolve 0 [])]) TxBatch = NotStarted"
    by simp_all
  have four: "exitStatus (resume (exampleEnv ''true'' ''false'' ''false'') TxBatch (Reject ''reverted'')
        (run (exampleEnv ''true'' ''false'' ''false'') (Resolve 0 ''0xme'') (Resolve 0 ''0x1'')))
      = None"
    using example_in_while inst(3) by simp
  show ?thesis
    using one two(1) three four example_no_poll example_no_key example_in_while(1) by blast
qed

section \<open>The three flags\<close>

lemma no_clear_resume:
  assumes "\<forall>r. \<not> reconciling (tasks w r)"
    and "\<forall>r. (\<forall>b. GetTransactionCount r b \<notin> set (trace w))
           \<and> (\<forall>to v i. SendTransaction r to v i \<notin> set (trace w))"
  shows "(\<forall>r. \<not> reconciling (tasks (resume env r' x w) r))
       \<and> (\<forall>r. (\<forall>b. GetTransactionCount r b \<notin> set (trace (resume env r' x w)))
           \<and> (\<forall>to v i. SendTransaction r to v i \<notin> set (trace (resume env r' x w))))"
proof -
  have "\<not> reconciling (tasks w r')" using assms(1) by simp
  then show ?thesis
    using assms by (cases "tasks w r'"; cases x) (simp_all add: loop_defs)
qed

lemma no_clear_deliver:
  assumes "\<forall>r. \<not> reconciling (tasks w r)"
    and "\<forall>r. (\<forall>b. GetTransactionCount r b \<notin> set (trace w))
           \<and> (\<forall>to v i. SendTransaction r to v i \<notin> set (trace w))"
  shows "(\<forall>r. \<not> reconciling (tasks (deliver env w s) r))
       \<and> (\<forall>r. (\<forall>b. GetTransactionCount r b \<notin> set (trace (deliver env w s)))
           \<and> (\<forall>to v i. SendTransaction r to v i \<notin> set (trace (deliver env w s))))"
proof (rule deliver_invariant [where P = "\<lambda>w. (\<forall>r. \<not> reconciling (tasks w r))
       \<and> (\<forall>r. (\<forall>b. GetTransactionCount r b \<notin> set (trace w))
           \<and> (\<forall>to v i. SendTransaction r to v i \<notin> set (trace w)))"])
  show "(\<forall>r. \<not> reconciling (tasks w r))
       \<and> (\<forall>r. (\<forall>b. GetTransactionCount r b \<notin> set (trace w))
           \<and> (\<forall>to v i. SendTransaction r to v i \<notin> set (trace w)))"
    using assms by simp
next
  fix w' :: world and r' x
  assume a: "(\<forall>r. \<not> reconciling (tasks w' r))
       \<and> (\<forall>r. (\<forall>b. GetTransactionCount r b \<notin> set (trace w'))
           \<and> (\<forall>to v i. SendTransaction r to v i \<notin> set (trace w')))"
  show "(\<forall>r. \<not> reconciling (tasks (resume env r' x w') r))
       \<and> (\<forall>r. (\<forall>b. GetTransactionCount r b \<notin> set (trace (resume env r' x w')))
           \<and> (\<forall>to v i. SendTransaction r to v i \<notin> set (trace (resume env r' x w'))))"
    by (rule no_clear_resume) (use a in simp_all)
qed

lemma quiet_no_clear:
  assumes "quiet w"
  shows "(\<forall>r. \<not> reconciling (tasks w r))
       \<and> (\<forall>r. (\<forall>b. GetTransactionCount r b \<notin> set (trace w))
           \<and> (\<forall>to v i. SendTransaction r to v i \<notin> set (trace w)))"
proof -
  have "\<And>e. caller e \<noteq> None \<Longrightarrow> e \<notin> set (trace w)"
    using assms by (rule quiet_no_call)
  then have "\<And>r b. GetTransactionCount r b \<notin> set (trace w)"
    "\<And>r to v i. SendTransaction r to v i \<notin> set (trace w)"
    by simp_all
  then show ?thesis using assms by (simp add: quiet_def)
qed

lemma launch_no_clear:
  assumes "\<not> clearPendingTxs env" "quiet w"
  shows "(\<forall>r. \<not> reconciling (tasks (launch env w) r))
       \<and> (\<forall>r. (\<forall>b. GetTransactionCount r b \<notin> set (trace (launch env w)))
           \<and> (\<forall>to v i. SendTransaction r to v i \<notin> set (trace (launch env w))))"
  using assms(1) quiet_no_clear [OF assms(2)]
  by (simp add: launch_def loop_def enterWhile_def emit_def goto_def Let_def)

lemma exec_no_clear:
  assumes "\<not> clearPendingTxs env"
  shows "\<not> reconciling (tasks (exec env a c s) r)
       \<and> (\<forall>b. GetTransactionCount r b \<notin> set (trace (exec env a c s)))
       \<and> (\<forall>to v i. SendTransaction r to v i \<notin> set (trace (exec env a c s)))"
proof -
  have "(\<forall>r. \<not> reconciling (tasks (run env a c) r))
       \<and> (\<forall>r. (\<forall>b. GetTransactionCount r b \<notin> set (trace (run env a c)))
           \<and> (\<forall>to v i. SendTransaction r to v i \<notin> set (trace (run env a c))))"
    using run_shape [of env a c] quiet_no_clear launch_no_clear [OF assms] by metis
  then show ?thesis
    unfolding exec_def using no_clear_deliver [of "run env a c" env s] by blast
qed

lemma launch_enabled:
  assumes "env (runFlag r) = Some ''true''" "tasks w r = NotStarted"
  shows "tasks (launch env w) r = (if clearPendingTxs env then AwaitPending else AwaitFunc)"
  using assms
  by (cases r)
     (simp_all add: launch_def Let_def required_true loop_other_task,
      simp_all add: loop_def enterWhile_def emit_def goto_def)

text \<open>
  C9. Each of \<open>RUN_TX_BATCH_SUBMITTER\<close>, \<open>RUN_STATE_BATCH_SUBMITTER\<close> and
  \<open>CLEAR_PENDING_TXS\<close> is a required variable: when it is unset or empty the process exits
  with status 1 and no loop is launched. When the variable of a role holds anything
  but the exact string \<open>true\<close>, the loop of that role is never launched and its submitter
  is never called; when \<open>CLEAR_PENDING_TXS\<close> holds anything but \<open>true\<close>, no loop ever
  reconciles: no count is read and no transaction is sent. When start-up succeeds, a
  role whose variable is \<open>true\<close> is launched, into its reconciliation if
  \<open>CLEAR_PENDING_TXS\<close> is \<open>true\<close> and straight into its first \<open>submitNextBatch\<close> otherwise.
\<close>

theorem flags_enabled_only_by_true:
  "(k \<in> {''RUN_TX_BATCH_SUBMITTER'', ''RUN_STATE_BATCH_SUBMITTER'', ''CLEAR_PENDING_TXS''}
      \<and> \<not> truthy (env k) \<longrightarrow>
      exited (exec env a c s) = Some 1 \<and> tasks (exec env a c s) = (\<lambda>_. NotStarted))
   \<and> (env (runFlag r) \<noteq> Some ''true'' \<longrightarrow>
        tasks (exec env a c s) r = NotStarted
        \<and> SubmitNextBatch r \<notin> set (trace (exec env a c s)))
   \<and> (env ''CLEAR_PENDING_TXS'' \<noteq> Some ''true'' \<longrightarrow>
        \<not> reconciling (tasks (exec env a c s) r)
        \<and> (\<forall>b. GetTransactionCount r b \<notin> set (trace (exec env a c s)))
        \<and> (\<forall>to v i. SendTransaction r to v i \<notin> set (trace (exec env a c s))))
   \<and> (firstMissing env requiredEnvVars = None \<and> sequencerSigner env \<noteq> None
        \<and> env (runFlag r) = Some ''true'' \<longrightarrow>
        tasks (run env (Resolve n addr) (Resolve m cid)) r =
          (if env ''CLEAR_PENDING_TXS'' = Some ''true'' then AwaitPending else AwaitFunc))"
proof (intro conjI impI)
  assume "k \<in> {''RUN_TX_BATCH_SUBMITTER'', ''RUN_STATE_BATCH_SUBMITTER'', ''CLEAR_PENDING_TXS''}
      \<and> \<not> truthy (env k)"
  then have "k \<in> set requiredEnvVars" "\<not> truthy (env k)"
    by (auto simp: requiredEnvVars_def)
  then obtain v where "firstMissing env requiredEnvVars = Some v"
    using missing_found by blast
  from exec_missing [OF this, of a c s]
  show "exited (exec env a c s) = Some 1" "tasks (exec env a c s) = (\<lambda>_. NotStarted)"
    by simp_all
next
  assume d: "env (runFlag r) \<noteq> Some ''true''"
  from exec_disabled [where env = env and r = r, OF d, of a c s]
  show "tasks (exec env a c s) r = NotStarted"
    "SubmitNextBatch r \<notin> set (trace (exec env a c s))"
    by (simp_all add: no_calls_no_submit)
next
  assume "env ''CLEAR_PENDING_TXS'' \<noteq> Some ''true''"
  then have nc: "\<not> clearPendingTxs env"
    by (simp add: clearPendingTxs_def required_true)
  from exec_no_clear [OF nc, of a c s r]
  show "\<not> reconciling (tasks (exec env a c s) r)"
    "\<forall>b. GetTransactionCount r b \<notin> set (trace (exec env a c s))"
    "\<forall>to v i. SendTransaction r to v i \<notin> set (trace (exec env a c s))"
    by simp_all
next
  assume h: "firstMissing env requiredEnvVars = None \<and> sequencerSigner env \<noteq> None
        \<and> env (runFlag r) = Some ''true''"
  then obtain wl where wl: "sequencerSigner env = Some wl" by auto
  have c: "clearPendingTxs env \<longleftrightarrow> env ''CLEAR_PENDING_TXS'' = Some ''true''"
    by (simp add: clearPendingTxs_def required_true)
  show "tasks (run env (Resolve n addr) (Resolve m cid)) r =
          (if env ''CLEAR_PENDING_TXS'' = Some ''true'' then AwaitPending else AwaitFunc)"
    using h unfolding run_launched [OF conjunct1 [OF h] wl] c [symmetric]
    by (intro launch_enabled) (simp_all add: emit_def start_def)
qed

theorem flags_enabled_only_by_true_witness:
  "\<not> truthy (((exampleEnv ''true'' ''TRUE'' ''1'')(''CLEAR_PENDING_TXS'' := None)) ''CLEAR_PENDING_TXS'')
   \<and> exited (exec ((exampleEnv ''true'' ''TRUE'' ''1'')(''CLEAR_PENDING_TXS'' := None))
        (Resolve 0 ''0xme'') (Resolve 0 ''0x1'') [(TxBatch, Resolve 0 [])]) = Some 1
   \<and> exampleEnv ''true'' ''TRUE'' ''1'' (runFlag StateBatch) \<noteq> Some ''true''
   \<and> tasks (exec (exampleEnv ''true'' ''TRUE'' ''1'') (Resolve 0 ''0xme'') (Resolve 0 ''0x1'')
        [(TxBatch, Resolve 0 [])]) StateBatch = NotStarted
   \<and> exampleEnv ''true'' ''TRUE'' ''1'' ''CLEAR_PENDING_TXS'' \<noteq> Some ''true''
   \<and> GetTransactionCount TxBatch Pending \<notin> set (trace
        (exec (exampleEnv ''true'' ''TRUE'' ''1'') (Resolve 0 ''0xme'') (Resolve 0 ''0x1'')
        [(TxBatch, Resolve 0 [])]))
   \<and> firstMissing (exampleEnv ''true'' ''TRUE'' ''1'') requiredEnvVars = None
   \<and> sequencerSigner (exampleEnv ''true'' ''TRUE'' ''1'') \<noteq> None
   \<and> exampleEnv ''true'' ''TRUE'' ''1'' (runFlag TxBatch) = Some ''true''
   \<and> tasks (run (exampleEnv ''true'' ''TRUE'' ''1'') (Resolve 0 ''0xme'') (Resolve 0 ''0x1''))
        TxBatch = AwaitFunc"
proof -
  have h: "\<not> truthy (((exampleEnv ''true'' ''TRUE'' ''1'')(''CLEAR_PENDING_TXS'' := None)) ''CLEAR_PENDING_TXS'')"
    "exampleEnv ''true'' ''TRUE'' ''1'' (runFlag StateBatch) \<noteq> Some ''true''"
    "exampleEnv ''true'' ''TRUE'' ''1'' ''CLEAR_PENDING_TXS'' \<noteq> Some ''true''"
    "firstMissing (exampleEnv ''true'' ''TRUE'' ''1'') requiredEnvVars = None"
    "sequencerSigner (exampleEnv ''true'' ''TRUE'' ''1'') \<noteq> None"
    "exampleEnv ''true'' ''TRUE'' ''1'' (runFlag TxBatch) = Some ''true''"
    by (simp_all add: truthy_def example_complete example_signer) (simp_all add: exampleEnv_def)
  note a = flags_enabled_only_by_true [where k = "''CLEAR_PENDING_TXS''"
      and env = "(exampleEnv ''true'' ''TRUE'' ''1'')(''CLEAR_PENDING_TXS'' := None)"
      and a = "Resolve 0 ''0xme''" and c = "Resolve 0 ''0x1''" and s = "[(TxBatch, Resolve 0 [])]"
      and r = StateBatch and n = 0 and addr = "''0xme''" and m = 0 and cid = "''0x1''"]
  note b = flags_enabled_only_by_true [where k = "''CLEAR_PENDING_TXS''"
      and env = "exampleEnv ''true'' ''TRUE'' ''1''"
      and a = "Resolve 0 ''0xme''" and c = "Resolve 0 ''0x1''" and s = "[(TxBatch, Resolve 0 [])]"
      and r = StateBatch and n = 0 and addr = "''0xme''" and m = 0 and cid = "''0x1''"]
  note c = flags_enabled_only_by_true [where k = "''CLEAR_PENDING_TXS''"
      and env = "exampleEnv ''true'' ''TRUE'' ''1''"
      and a = "Resolve 0 ''0xme''" and c = "Resolve 0 ''0x1''" and s = "[(TxBatch, Resolve 0 [])]"
      and r = TxBatch and n = 0 and addr = "''0xme''" and m = 0 and cid = "''0x1''"]
  have 1: "exited (exec ((exampleEnv ''true'' ''TRUE'' ''1'')(''CLEAR_PENDING_TXS'' := None))
        (Resolve 0 ''0xme'') (Resolve 0 ''0x1'') [(TxBatch, Resolve 0 [])]) = Some 1"
    using h(1) a by blast
  have 2: "tasks (exec (exampleEnv ''true'' ''TRUE'' ''1'') (Resolve 0 ''0xme'') (Resolve 0 ''0x1'')
        [(TxBatch, Resolve 0 [])]) StateBatch = NotStarted"
    using h(2) b by blast
  have 3: "GetTransactionCount TxBatch Pending \<notin> set (trace
        (exec (exampleEnv ''true'' ''TRUE'' ''1'') (Resolve 0 ''0xme'') (Resolve 0 ''0x1'')
        [(TxBatch, Resolve 0 [])]))"
    using h(3) c by blast
  have 4: "tasks (run (exampleEnv ''true'' ''TRUE'' ''1'') (Resolve 0 ''0xme'') (Resolve 0 ''0x1''))
        TxBatch = AwaitFunc"
    using h(3,4,5,6) c by simp
  show ?thesis using h 1 2 3 4 by blast
qed

section \<open>The self-transfers of a reconciliation\<close>

lemma for_loop:
  assumes "exited w = None"
  shows "deliver env (forHead r p i w)
           (concat (map (\<lambda>j. [(r, Resolve 0 (address j)), (r, Resolve 0 (hash j)), (r, Resolve 0 [])])
              [i..<p])) =
         enterWhile r (emit (concat (map (\<lambda>j.
            [GetAddress r, SendTransaction r (address j) 0 j,
             LogInfo (SubmittingTransaction j (hash j)),
             GetReceiptWithResubmission r (hash j) []
               (parseInt (required env ''NUM_CONFIRMATIONS'')) 60000])
            [i..<p])) w)"
  using assms
proof (induction "p - i" arbitrary: i w)
  case 0
  then show ?case by (simp add: forHead_def emit_def)
next
  case (Suc k)
  then have lt: "i < p" and k: "k = p - Suc i" by simp_all
  let ?w' = "emit [GetAddress r, SendTransaction r (address i) 0 i,
             LogInfo (SubmittingTransaction i (hash i)),
             GetReceiptWithResubmission r (hash i) []
               (parseInt (required env ''NUM_CONFIRMATIONS'')) 60000] w"
  have step: "deliver env (forHead r p i w)
         [(r, Resolve 0 (address i)), (r, Resolve 0 (hash i)), (r, Resolve 0 [])]
      = forHead r p (Suc i) ?w'"
    using lt Suc.prems by (simp add: loop_defs)
  have ex: "exited ?w' = None" using Suc.prems by (simp add: emit_def)
  have "deliver env (forHead r p i w)
           (concat (map (\<lambda>j. [(r, Resolve 0 (address j)), (r, Resolve 0 (hash j)), (r, Resolve 0 [])])
              [i..<p]))
      = deliver env (forHead r p (Suc i) ?w')
           (concat (map (\<lambda>j. [(r, Resolve 0 (address j)), (r, Resolve 0 (hash j)), (r, Resolve 0 [])])
              [Suc i..<p]))"
    using lt step by (simp add: upt_conv_Cons del: deliver_Cons) (simp add: deliver_def)
  also have "\<dots> = enterWhile r (emit (concat (map (\<lambda>j.
            [GetAddress r, SendTransaction r (address j) 0 j,
             LogInfo (SubmittingTransaction j (hash j)),
             GetReceiptWithResubmission r (hash j) []
               (parseInt (required env ''NUM_CONFIRMATIONS'')) 60000])
            [Suc i..<p])) ?w')"
    using Suc.hyps(1) [OF k ex] .
  finally show ?case using lt by (simp add: upt_conv_Cons emit_def enterWhile_def goto_def)
qed

lemma reconcile_all:
  assumes "exited w = None" "tasks w r = AwaitPending"
  shows "deliver env w
           ((r, Resolve p []) # (r, Resolve l []) #
            concat (map (\<lambda>j. [(r, Resolve 0 (address j)), (r, Resolve 0 (hash j)), (r, Resolve 0 [])])
              [l..<p])) =
         enterWhile r (emit (GetTransactionCount r Latest #
            (if l < p then [LogInfo DetectedPending] else []) @
            concat (map (\<lambda>j.
              [GetAddress r, SendTransaction r (address j) 0 j,
               LogInfo (SubmittingTransaction j (hash j)),
               GetReceiptWithResubmission r (hash j) []
                 (parseInt (required env ''NUM_CONFIRMATIONS'')) 60000])
              [l..<p])) w)"
proof (cases "l < p")
  case True
  let ?w1 = "emit [LogInfo DetectedPending]
               (goto r (AwaitLatest p) (emit [GetTransactionCount r Latest] w))"
  have two: "deliver env w [(r, Resolve p []), (r, Resolve l [])] = forHead r p l ?w1"
    using assms True by (simp add: resume_def emit_def goto_def)
  have ex: "exited ?w1 = None" using assms by (simp add: emit_def goto_def)
  have "deliver env w
           ((r, Resolve p []) # (r, Resolve l []) #
            concat (map (\<lambda>j. [(r, Resolve 0 (address j)), (r, Resolve 0 (hash j)), (r, Resolve 0 [])])
              [l..<p]))
      = deliver env (forHead r p l ?w1)
            (concat (map (\<lambda>j. [(r, Resolve 0 (address j)), (r, Resolve 0 (hash j)), (r, Resolve 0 [])])
              [l..<p]))"
    using two by simp
  also note for_loop [OF ex, of env r p l address hash]
  finally show ?thesis
    using True by (simp add: enterWhile_def emit_def goto_def)
next
  case False
  then show ?thesis
    using assms by (simp add: loop_defs)
qed

lemma calls_Nil: "calls r [] = []"
  by (simp add: calls_def)

lemma calls_Cons: "calls r (e # es) = (if caller e = Some r then e # calls r es else calls r es)"
  by (simp add: calls_def)

lemma calls_append: "calls r (xs @ ys) = calls r xs @ calls r ys"
  by (simp add: calls_def)

lemma calls_iterations:
  "calls r (concat (map (\<lambda>j.
      [GetAddress r, SendTransaction r (address j) 0 j,
       LogInfo (SubmittingTransaction j (hash j)),
       GetReceiptWithResubmission r (hash j) [] nc 60000]) js)) =
   concat (map (\<lambda>j.
      [GetAddress r, SendTransaction r (address j) 0 j,
       GetReceiptWithResubmission r (hash j) [] nc 60000]) js)"
  by (induction js) (simp_all add: calls_def)

text \<open>
  C2. Take a loop at the start of its reconciliation and let the signer report
  \<open>pendingTxs\<close> and \<open>latestTxs\<close>, and every later await be fulfilled. The loop then makes
  exactly these calls, in this order: for each nonce \<open>i\<close> from \<open>latestTxs\<close> up to
  \<open>pendingTxs - 1\<close>, ascending and without a gap, it asks the signer for its address, sends
  one transaction of value 0 to that address with nonce \<open>i\<close>, and calls
  \<open>getReceiptWithResubmission\<close> for the response with no prior attempts, the parsed
  \<open>NUM_CONFIRMATIONS\<close> and the timeout 60000; the calls for nonce \<open>i + 1\<close> are made only when
  the receipt for nonce \<open>i\<close> has been delivered. After the last nonce it calls
  \<open>submitNextBatch\<close>. When \<open>pendingTxs \<le> latestTxs\<close> the range is empty and nothing is sent.
  The second part says the same of the loop's calls in any interleaving with the other
  loop, as long as the process has not exited.
\<close>

theorem reconciliation_broadcasts:
  assumes "exited w = None" and "tasks w r = AwaitPending"
  shows "trace (deliver env w
           ((r, Resolve pendingTxs []) # (r, Resolve latestTxs []) #
            concat (map (\<lambda>i. [(r, Resolve 0 (address i)), (r, Resolve 0 (hash i)), (r, Resolve 0 [])])
              [latestTxs..<pendingTxs]))) =
         trace w @ GetTransactionCount r Latest #
            (if latestTxs < pendingTxs then [LogInfo DetectedPending] else []) @
            concat (map (\<lambda>i.
              [GetAddress r, SendTransaction r (address i) 0 i,
               LogInfo (SubmittingTransaction i (hash i)),
               GetReceiptWithResubmission r (hash i) []
                 (parseInt (required env ''NUM_CONFIRMATIONS'')) 60000])
              [latestTxs..<pendingTxs]) @ [SubmitNextBatch r]
       \<and> (filter (\<lambda>e. fst e = r) s =
            (r, Resolve pendingTxs []) # (r, Resolve latestTxs []) #
            concat (map (\<lambda>i. [(r, Resolve 0 (address i)), (r, Resolve 0 (hash i)), (r, Resolve 0 [])])
              [latestTxs..<pendingTxs])
          \<and> exited (deliver env w s) = None \<longrightarrow>
          calls r (trace (deliver env w s)) =
            calls r (trace w) @ GetTransactionCount r Latest #
            concat (map (\<lambda>i.
              [GetAddress r, SendTransaction r (address i) 0 i,
               GetReceiptWithResubmission r (hash i) []
                 (parseInt (required env ''NUM_CONFIRMATIONS'')) 60000])
              [latestTxs..<pendingTxs]) @ [SubmitNextBatch r])"
proof -
  let ?s = "(r, Resolve pendingTxs []) # (r, Resolve latestTxs []) #
            concat (map (\<lambda>i. [(r, Resolve 0 (address i)), (r, Resolve 0 (hash i)), (r, Resolve 0 [])])
              [latestTxs..<pendingTxs])"
  have tr: "trace (deliver env w ?s) =
         trace w @ GetTransactionCount r Latest #
            (if latestTxs < pendingTxs then [LogInfo DetectedPending] else []) @
            concat (map (\<lambda>i.
              [GetAddress r, SendTransaction r (address i) 0 i,
               LogInfo (SubmittingTransaction i (hash i)),
               GetReceiptWithResubmission r (hash i) []
                 (parseInt (required env ''NUM_CONFIRMATIONS'')) 60000])
              [latestTxs..<pendingTxs]) @ [SubmitNextBatch r]"
    unfolding reconcile_all [OF assms] by (simp add: enterWhile_def emit_def goto_def)
  have cl: "calls r (trace (deliver env w ?s)) =
            calls r (trace w) @ GetTransactionCount r Latest #
            concat (map (\<lambda>i.
              [GetAddress r, SendTransaction r (address i) 0 i,
               GetReceiptWithResubmission r (hash i) []
                 (parseInt (required env ''NUM_CONFIRMATIONS'')) 60000])
              [latestTxs..<pendingTxs]) @ [SubmitNextBatch r]"
    unfolding tr by (simp add: calls_append calls_Cons calls_Nil calls_iterations)
  have "calls r (trace (deliver env w s)) = calls r (trace (deliver env w ?s))"
    if "filter (\<lambda>e. fst e = r) s = ?s" "exited (deliver env w s) = None"
    using projection [OF that(2), of r] that(1) by simp
  with tr cl show ?thesis by simp
qed

lemma example_reconciling:
  "exited (run (exampleEnv ''true'' ''true'' ''true'') (Resolve 0 ''0xme'') (Resolve 0 ''0x1'')) = None"
  "tasks (run (exampleEnv ''true'' ''true'' ''true'') (Resolve 0 ''0xme'') (Resolve 0 ''0x1'')) TxBatch
     = AwaitPending"
  "exited (deliver (exampleEnv ''true'' ''true'' ''true'')
      (run (exampleEnv ''true'' ''true'' ''true'') (Resolve 0 ''0xme'') (Resolve 0 ''0x1''))
      [(TxBatch, Resolve 7 []), (StateBatch, Resolve 0 []), (TxBatch, Resolve 5 []),
       (TxBatch, Resolve 0 ''0xme''), (TxBatch, Resolve 0 ''0xh''), (StateBatch, Resolve 0 []),
       (TxBatch, Resolve 0 []),
       (TxBatch, Resolve 0 ''0xme''), (TxBatch, Resolve 0 ''0xh''), (TxBatch, Resolve 0 [])]) = None"
  by (simp_all add: example_defs)

theorem reconciliation_broadcasts_witness:
  "exited (run (exampleEnv ''true'' ''true'' ''true'') (Resolve 0 ''0xme'') (Resolve 0 ''0x1'')) = None
   \<and> tasks (run (exampleEnv ''true'' ''true'' ''true'') (Resolve 0 ''0xme'') (Resolve 0 ''0x1'')) TxBatch
     = AwaitPending
   \<and> trace (deliver (exampleEnv ''true'' ''true'' ''true'')
      (run (exampleEnv ''true'' ''true'' ''true'') (Resolve 0 ''0xme'') (Resolve 0 ''0x1''))
      [(TxBatch, Resolve 7 []), (TxBatch, Resolve 5 []),
       (TxBatch, Resolve 0 ''0xme''), (TxBatch, Resolve 0 ''0xh''), (TxBatch, Resolve 0 []),
       (TxBatch, Resolve 0 ''0xme''), (TxBatch, Resolve 0 ''0xh''), (TxBatch, Resolve 0 [])])
     = trace (run (exampleEnv ''true'' ''true'' ''true'') (Resolve 0 ''0xme'') (Resolve 0 ''0x1''))
       @ [GetTransactionCount TxBatch Latest, LogInfo DetectedPending,
          GetAddress TxBatch, SendTransaction TxBatch ''0xme'' 0 5,
          LogInfo (SubmittingTransaction 5 ''0xh''),
          GetReceiptWithResubmission TxBatch ''0xh'' [] (Some 1) 60000,
          GetAddress TxBatch, SendTransaction TxBatch ''0xme'' 0 6,
          LogInfo (SubmittingTransaction 6 ''0xh''),
          GetReceiptWithResubmission TxBatch ''0xh'' [] (Some 1) 60000,
          SubmitNextBatch TxBatch]
   \<and> filter (\<lambda>e. fst e = TxBatch)
      [(TxBatch, Resolve 7 []), (StateBatch, Resolve 0 []), (TxBatch, Resolve 5 []),
       (TxBatch, Resolve 0 ''0xme''), (TxBatch, Resolve 0 ''0xh''), (StateBatch, Resolve 0 []),
       (TxBatch, Resolve 0 []),
       (TxBatch, Resolve 0 ''0xme''), (TxBatch, Resolve 0 ''0xh''), (TxBatch, Resolve 0 [])]
     = [(TxBatch, Resolve 7 []), (TxBatch, Resolve 5 []),
       (TxBatch, Resolve 0 ''0xme''), (TxBatch, Resolve 0 ''0xh''), (TxBatch, Resolve 0 []),
       (TxBatch, Resolve 0 ''0xme''), (TxBatch, Resolve 0 ''0xh''), (TxBatch, Resolve 0 [])]
   \<and> exited (deliver (exampleEnv ''true'' ''true'' ''true'')
      (run (exampleEnv ''true'' ''true'' ''true'') (Resolve 0 ''0xme'') (Resolve 0 ''0x1''))
      [(TxBatch, Resolve 7 []), (StateBatch, Resolve 0 []), (TxBatch, Resolve 5 []),
       (TxBatch, Resolve 0 ''0xme''), (TxBatch, Resolve 0 ''0xh''), (StateBatch, Resolve 0 []),
       (TxBatch, Resolve 0 []),
       (TxBatch, Resolve 0 ''0xme''), (TxBatch, Resolve 0 ''0xh''), (TxBatch, Resolve 0 [])]) = None
   \<and> calls TxBatch (trace (deliver (exampleEnv ''true'' ''true'' ''true'')
      (run (exampleEnv ''true'' ''true'' ''true'') (Resolve 0 ''0xme'') (Resolve 0 ''0x1''))
      [(TxBatch, Resolve 7 []), (StateBatch, Resolve 0 []), (TxBatch, Resolve 5 []),
       (TxBatch, Resolve 0 ''0xme''), (TxBatch, Resolve 0 ''0xh''), (StateBatch, Resolve 0 []),
       (TxBatch, Resolve 0 []),
       (TxBatch, Resolve 0 ''0xme''), (TxBatch, Resolve 0 ''0xh''), (TxBatch, Resolve 0 [])]))
     = calls TxBatch (trace (run (exampleEnv ''true'' ''true'' ''true'') (Resolve 0 ''0xme'')
          (Resolve 0 ''0x1'')))
       @ [GetTransactionCount TxBatch Latest,
          GetAddress TxBatch, SendTransaction TxBatch ''0xme'' 0 5,
          GetReceiptWithResubmission TxBatch ''0xh'' [] (Some 1) 60000,
          GetAddress TxBatch, SendTransaction TxBatch ''0xme'' 0 6,
          GetReceiptWithResubmission TxBatch ''0xh'' [] (Some 1) 60000,
          SubmitNextBatch TxBatch]"
  using example_reconciling
    reconciliation_broadcasts [OF example_reconciling(1,2),
      of "exampleEnv ''true'' ''true'' ''true''" 7 5 "\<lambda>_. ''0xme''" "\<lambda>_. ''0xh''"
       "[(TxBatch, Resolve 7 []), (StateBatch, Resolve 0 []), (TxBatch, Resolve 5 []),
       (TxBatch, Resolve 0 ''0xme''), (TxBatch, Resolve 0 ''0xh''), (StateBatch, Resolve 0 []),
       (TxBatch, Resolve 0 []),
       (TxBatch, Resolve 0 ''0xme''), (TxBatch, Resolve 0 ''0xh''), (TxBatch, Resolve 0 [])]"]
  by (simp add: example_values del: deliver_Cons)

section \<open>Closing the gap\<close>

lemma awaited_append:
  "trace w' = trace w @ es \<Longrightarrow>
   awaited r w' = (case rev (calls r es) of [] \<Rightarrow> awaited r w | call # _ \<Rightarrow> Some call)"
  by (simp add: awaited_def calls_def split: list.splits)

lemma awaited_other: "r' \<noteq> r \<Longrightarrow> awaited r' (resume env r x w) = awaited r' w"
  by (simp add: awaited_def resume_other_calls)

lemma resume_trace_grows: "set (trace w) \<subseteq> set (trace (resume env r x w))"
  by (auto simp: loop_defs split: pc.splits response.splits)

lemma settle_broadcast_mono:
  "settle call x ch = Some ch' \<Longrightarrow> broadcast ch h = Some i \<Longrightarrow> broadcast ch' h = Some i"
  by (induction call x ch rule: settle.induct) (auto split: if_splits option.splits)

lemma drive_deliver: "drive env (w, ch) s = Some (w', ch') \<Longrightarrow> w' = deliver env w s"
proof (induction s arbitrary: w ch)
  case Nil
  then show ?case by simp
next
  case (Cons e s)
  obtain r x where e: "e = (r, x)" by (cases e)
  show ?case
  proof (cases "exited w \<noteq> None \<or> tasks w r = NotStarted")
    case True
    then have "resume env r x w = w"
      by (auto simp: resume_after_exit resume_NotStarted)
    with Cons True show ?thesis by (simp add: e)
  next
    case False
    with Cons.prems obtain call ch1 where "drive env (resume env r x w, ch1) s = Some (w', ch')"
      by (auto simp: e split: option.splits)
    from Cons.IH [OF this] show ?thesis by (simp add: e)
  qed
qed

lemma gapInv_self:
  assumes ti: "taskInv P r w ch" and P: "pending ch = P" "latest ch \<le> P"
    and ns: "\<forall>q. SubmitNextBatch q \<notin> set (trace (resume env r x w))"
    and ex: "exited w = None" and st: "tasks w r \<noteq> NotStarted"
    and aw: "awaited r w = Some call" and se: "settle call x ch = Some ch'"
  shows "pending ch' = P \<and> latest ch' \<le> P \<and> taskInv P r (resume env r x w) ch'"
proof (cases "tasks w r")
  case NotStarted
  with st show ?thesis by simp
next
  case AwaitPending
  with ti aw have call: "call = GetTransactionCount r Pending"
    by (simp add: taskInv_def)
  show ?thesis
    using se P ex AwaitPending aw unfolding call
    by (cases x)
       (auto simp: taskInv_def resume_def catchClear_def emit_def goto_def awaited_def calls_def
          split: if_splits)
next
  case (AwaitLatest p)
  with ti aw have call: "call = GetTransactionCount r Latest" and p: "p = P"
    by (simp_all add: taskInv_def)
  show ?thesis
    using se P ex AwaitLatest aw ns p unfolding call
    by (cases x)
       (auto simp: taskInv_def resume_def catchClear_def forHead_def enterWhile_def emit_def
          goto_def awaited_def calls_def split: if_splits)
next
  case (AwaitAddress p i)
  with ti aw have call: "call = GetAddress r" and p: "p = P" "i < p"
    by (simp_all add: taskInv_def)
  show ?thesis
    using se P ex AwaitAddress aw p unfolding call
    by (cases x)
       (auto simp: taskInv_def resume_def catchClear_def emit_def goto_def awaited_def calls_def
          split: if_splits)
next
  case (AwaitSend p i)
  with ti aw obtain a where call: "call = SendTransaction r a 0 i" and p: "p = P" "i < p"
    by (auto simp: taskInv_def)
  show ?thesis
    using se P ex AwaitSend aw p unfolding call
    by (cases x)
       (auto simp: taskInv_def resume_def catchClear_def emit_def goto_def awaited_def calls_def
          split: if_splits)
next
  case (AwaitReceipt p i)
  with ti aw obtain h nc where call: "call = GetReceiptWithResubmission r h [] nc 60000"
    and b: "broadcast ch h = Some i" and p: "p = P" "i < p"
    by (auto simp: taskInv_def)
  show ?thesis
    using se P ex AwaitReceipt aw ns p b unfolding call
    by (cases x)
       (auto simp: taskInv_def resume_def catchClear_def forHead_def enterWhile_def emit_def
          goto_def awaited_def calls_def split: if_splits)
next
  case AwaitFunc
  with ti have "SubmitNextBatch r \<in> set (trace w)" by (simp add: taskInv_def)
  with ns resume_trace_grows [of w env r x] show ?thesis by blast
next
  case AwaitSleep
  with ti have "SubmitNextBatch r \<in> set (trace w)" by (simp add: taskInv_def)
  with ns resume_trace_grows [of w env r x] show ?thesis by blast
qed

lemma gapInv_other:
  assumes ti: "taskInv P q w ch" and "q \<noteq> r" and se: "settle call x ch = Some ch'"
  shows "taskInv P q (resume env r x w) ch'"
proof -
  have t: "tasks (resume env r x w) q = tasks w q" and a: "awaited q (resume env r x w) = awaited q w"
    using assms(2) by (simp_all add: resume_other_task awaited_other)
  have m: "\<And>e. e \<in> set (trace w) \<Longrightarrow> e \<in> set (trace (resume env r x w))"
    using resume_trace_grows [of w env r x] by blast
  show ?thesis
    using ti settle_broadcast_mono [OF se] m
    unfolding taskInv_def t a by (auto split: pc.splits)
qed

lemma gapInv_step:
  assumes inv: "gapInv P w ch" and ex: "exited w = None" and st: "tasks w r \<noteq> NotStarted"
    and aw: "awaited r w = Some call" and se: "settle call x ch = Some ch'"
  shows "gapInv P (resume env r x w) ch'"
  unfolding gapInv_def
proof (intro impI)
  assume ns': "\<forall>q. SubmitNextBatch q \<notin> set (trace (resume env r x w))"
  have ns: "\<forall>q. SubmitNextBatch q \<notin> set (trace w)"
    using ns' resume_trace_grows [of w env r x] by blast
  with inv have P: "pending ch = P" "latest ch \<le> P" and ti: "\<And>q. taskInv P q w ch"
    by (auto simp: gapInv_def)
  have self: "pending ch' = P \<and> latest ch' \<le> P \<and> taskInv P r (resume env r x w) ch'"
    using ti [of r] P ns' ex st aw se by (rule gapInv_self)
  have "taskInv P q (resume env r x w) ch'" for q
  proof (cases "q = r")
    case True
    with self show ?thesis by simp
  next
    case False
    from ti [of q] False se show ?thesis by (rule gapInv_other)
  qed
  with self show "pending ch' = P \<and> latest ch' \<le> P \<and> (\<forall>q. taskInv P q (resume env r x w) ch')"
    by simp
qed

lemma gapInv_drive:
  "gapInv P w ch \<Longrightarrow> drive env (w, ch) s = Some (w', ch') \<Longrightarrow> gapInv P w' ch'"
proof (induction s arbitrary: w ch)
  case Nil
  then show ?case by simp
next
  case (Cons e s)
  obtain r x where e: "e = (r, x)" by (cases e)
  show ?case
  proof (cases "exited w \<noteq> None \<or> tasks w r = NotStarted")
    case True
    with Cons show ?thesis by (simp add: e)
  next
    case False
    with Cons.prems(2) obtain call ch1 where aw: "awaited r w = Some call"
      and se: "settle call x ch = Some ch1"
      and d: "drive env (resume env r x w, ch1) s = Some (w', ch')"
      by (auto simp: e split: option.splits)
    from False have "exited w = None" "tasks w r \<noteq> NotStarted" by simp_all
    from gapInv_step [OF Cons.prems(1) this aw se] d show ?thesis
      by (rule Cons.IH)
  qed
qed

lemma taskInv_launch:
  assumes q: "quiet w0"
  shows "taskInv P r (launch env w0) ch"
proof -
  from q have n: "\<And>r. tasks w0 r = NotStarted"
    and f: "\<And>r. filter (\<lambda>e. caller e = Some r) (trace w0) = []"
    using quiet_calls [OF q] by (simp_all add: quiet_def calls_def)
  show ?thesis
    by (cases r)
       (simp_all add: taskInv_def launch_def loop_def enterWhile_def emit_def goto_def
          awaited_def calls_def n f Let_def)
qed

lemma taskInv_run: "taskInv P r (run env a c) ch"
  using run_shape [of env a c]
proof
  assume "quiet (run env a c)"
  then have "tasks (run env a c) r = NotStarted" by (simp add: quiet_def)
  then show ?thesis by (simp add: taskInv_def)
next
  assume "\<exists>w0. run env a c = launch env w0 \<and> quiet w0 \<and> exited w0 = None"
  then show ?thesis by (auto simp: taskInv_launch)
qed

lemma gapInv_run: "latest ch \<le> pending ch \<Longrightarrow> gapInv (pending ch) (run env a c) ch"
  by (simp add: gapInv_def taskInv_run)

subsection \<open>The example scenario\<close>

lemmas drive_defs = drive.simps awaited_def calls_def stuckChain_def bothClearing_def

lemma example_clearing:
  "drive (exampleEnv ''true'' ''true'' ''true'')
     (run (exampleEnv ''true'' ''true'' ''true'') (Resolve 0 ''0xme'') (Resolve 0 ''0x1''), stuckChain)
     bothClearing =
   Some (exec (exampleEnv ''true'' ''true'' ''true'') (Resolve 0 ''0xme'')
           (Resolve 0 ''0x1'') bothClearing,
         stuckChain\<lparr>latest := 7,
           broadcast := (broadcast stuckChain)(''0xt5'' \<mapsto> 5, ''0xt6'' \<mapsto> 6, ''0xt7'' \<mapsto> 7)\<rparr>)"
  by (simp add: example_defs example_values drive_defs)

lemma example_cleared:
  "drive (exampleEnv ''true'' ''true'' ''true'')
     (exec (exampleEnv ''true'' ''true'' ''true'') (Resolve 0 ''0xme'')
        (Resolve 0 ''0x1'') bothClearing,
      stuckChain\<lparr>latest := 7,
        broadcast := (broadcast stuckChain)(''0xt5'' \<mapsto> 5, ''0xt6'' \<mapsto> 6, ''0xt7'' \<mapsto> 7)\<rparr>)
     [(TxBatch, Resolve 0 [])] =
   Some (exec (exampleEnv ''true'' ''true'' ''true'') (Resolve 0 ''0xme'')
           (Resolve 0 ''0x1'') (bothClearing @ [(TxBatch, Resolve 0 [])]),
         stuckChain\<lparr>latest := 8,
           broadcast := (broadcast stuckChain)(''0xt5'' \<mapsto> 5, ''0xt6'' \<mapsto> 6, ''0xt7'' \<mapsto> 7)\<rparr>)"
  by (simp add: example_defs example_values drive_defs)

lemma example_clearing_tasks:
  "tasks (exec (exampleEnv ''true'' ''true'' ''true'') (Resolve 0 ''0xme'')
       (Resolve 0 ''0x1'') bothClearing) TxBatch = AwaitReceipt 8 7"
  "tasks (exec (exampleEnv ''true'' ''true'' ''true'') (Resolve 0 ''0xme'')
       (Resolve 0 ''0x1'') bothClearing) StateBatch = AwaitAddress 8 6"
  "SubmitNextBatch StateBatch \<notin> set (trace (exec (exampleEnv ''true'' ''true'' ''true'') (Resolve 0 ''0xme'')
       (Resolve 0 ''0x1'') bothClearing))"
  "tasks (exec (exampleEnv ''true'' ''true'' ''true'') (Resolve 0 ''0xme'')
       (Resolve 0 ''0x1'') (bothClearing @ [(TxBatch, Resolve 0 [])])) TxBatch = AwaitFunc"
  by (simp_all add: example_defs example_values bothClearing_def)

subsection \<open>The first reconciliation to complete\<close>

text \<open>
  C6. Take a run of the process against a chain whose latest count is at most its pending
  count, with either or both loops launched and interleaved in any way, every
  settlement being one the chain can have given. Let a loop wait for the receipt of a
  self-transfer while no other loop has called \<open>submitNextBatch\<close> yet, and let the wait be
  fulfilled so that this loop leaves its reconciliation and calls \<open>submitNextBatch\<close>. Then
  the pending and the latest count of the signer are equal, both being the pending
  count the chain had when the process started.
\<close>

theorem reconciliation_closes_gap:
  assumes window: "latest ch0 \<le> pending ch0"
    and d: "drive env (run env a c, ch0) s = Some (w, ch)"
    and others: "\<forall>q. q \<noteq> r \<longrightarrow> SubmitNextBatch q \<notin> set (trace w)"
    and at: "tasks w r = AwaitReceipt p i"
    and last: "drive env (w, ch) [(r, Resolve n t)] = Some (w', ch')"
    and completed: "tasks w' r = AwaitFunc"
  shows "pending ch' = latest ch' \<and> latest ch' = pending ch0
       \<and> w' = exec env a c (s @ [(r, Resolve n t)])"
proof -
  have w: "w = exec env a c s"
    using drive_deliver [OF d] by (simp add: exec_def)
  have w': "w' = exec env a c (s @ [(r, Resolve n t)])"
    using drive_deliver [OF last] by (simp add: w exec_def deliver_append)
  have "onceOnly r w"
    unfolding w by (rule onceOnly_exec)
  with at have "SubmitNextBatch r \<notin> set (trace w)"
    by (simp add: onceOnly_def)
  with others have none: "\<forall>q. SubmitNextBatch q \<notin> set (trace w)"
    by (metis (full_types))
  have "gapInv (pending ch0) w ch"
    using gapInv_run [OF window] d by (rule gapInv_drive)
  with none have P: "pending ch = pending ch0" and L: "latest ch \<le> pending ch0"
    and ti: "taskInv (pending ch0) r w ch"
    by (simp_all add: gapInv_def)
  from ti at obtain h nc where p: "p = pending ch0" and i: "i < p"
    and aw: "awaited r w = Some (GetReceiptWithResubmission r h [] nc 60000)"
    and b: "broadcast ch h = Some i"
    by (auto simp: taskInv_def)
  have ex: "exited w = None"
  proof (rule ccontr)
    assume "exited w \<noteq> None"
    with last have "w' = w" by simp
    with at completed show False by simp
  qed
  from last ex at aw b have ch': "ch' = ch\<lparr>latest := max (latest ch) (i + 1)\<rparr>"
    and r: "w' = resume env r (Resolve n t) w"
    by (auto split: if_splits)
  from completed i have "i + 1 = p"
    unfolding r by (auto simp: resume_def ex at forHead_def enterWhile_def goto_def emit_def
        split: if_splits)
  with P L p ch' w' show ?thesis by simp
qed

theorem reconciliation_closes_gap_witness:
  "latest stuckChain \<le> pending stuckChain
   \<and> drive (exampleEnv ''true'' ''true'' ''true'')
     (run (exampleEnv ''true'' ''true'' ''true'') (Resolve 0 ''0xme'') (Resolve 0 ''0x1''), stuckChain)
     bothClearing =
   Some (exec (exampleEnv ''true'' ''true'' ''true'') (Resolve 0 ''0xme'')
           (Resolve 0 ''0x1'') bothClearing,
         stuckChain\<lparr>latest := 7,
           broadcast := (broadcast stuckChain)(''0xt5'' \<mapsto> 5, ''0xt6'' \<mapsto> 6, ''0xt7'' \<mapsto> 7)\<rparr>)
   \<and> SubmitNextBatch StateBatch \<notin> set (trace (exec (exampleEnv ''true'' ''true'' ''true'') (Resolve 0 ''0xme'')
       (Resolve 0 ''0x1'') bothClearing))
   \<and> tasks (exec (exampleEnv ''true'' ''true'' ''true'') (Resolve 0 ''0xme'')
       (Resolve 0 ''0x1'') bothClearing) StateBatch = AwaitAddress 8 6
   \<and> tasks (exec (exampleEnv ''true'' ''true'' ''true'') (Resolve 0 ''0xme'')
       (Resolve 0 ''0x1'') bothClearing) TxBatch = AwaitReceipt 8 7
   \<and> drive (exampleEnv ''true'' ''true'' ''true'')
     (exec (exampleEnv ''true'' ''true'' ''true'') (Resolve 0 ''0xme'')
        (Resolve 0 ''0x1'') bothClearing,
      stuckChain\<lparr>latest := 7,
        broadcast := (broadcast stuckChain)(''0xt5'' \<mapsto> 5, ''0xt6'' \<mapsto> 6, ''0xt7'' \<mapsto> 7)\<rparr>)
     [(TxBatch, Resolve 0 [])] =
   Some (exec (exampleEnv ''true'' ''true'' ''true'') (Resolve 0 ''0xme'')
           (Resolve 0 ''0x1'') (bothClearing @ [(TxBatch, Resolve 0 [])]),
         stuckChain\<lparr>latest := 8,
           broadcast := (broadcast stuckChain)(''0xt5'' \<mapsto> 5, ''0xt6'' \<mapsto> 6, ''0xt7'' \<mapsto> 7)\<rparr>)
   \<and> tasks (exec (exampleEnv ''true'' ''true'' ''true'') (Resolve 0 ''0xme'')
       (Resolve 0 ''0x1'') (bothClearing @ [(TxBatch, Resolve 0 [])])) TxBatch = AwaitFunc
   \<and> pending (stuckChain\<lparr>latest := 8,
         broadcast := (broadcast stuckChain)(''0xt5'' \<mapsto> 5, ''0xt6'' \<mapsto> 6, ''0xt7'' \<mapsto> 7)\<rparr>)
     = latest (stuckChain\<lparr>latest := 8,
         broadcast := (broadcast stuckChain)(''0xt5'' \<mapsto> 5, ''0xt6'' \<mapsto> 6, ''0xt7'' \<mapsto> 7)\<rparr>)
   \<and> latest (stuckChain\<lparr>latest := 8,
         broadcast := (broadcast stuckChain)(''0xt5'' \<mapsto> 5, ''0xt6'' \<mapsto> 6, ''0xt7'' \<mapsto> 7)\<rparr>)
     = pending stuckChain"
proof -
  have window: "latest stuckChain \<le> pending stuckChain"
    by (simp add: stuckChain_def)
  have others: "\<forall>q. q \<noteq> TxBatch \<longrightarrow> SubmitNextBatch q \<notin> set (trace (exec (exampleEnv ''true'' ''true'' ''true'') (Resolve 0 ''0xme'')
       (Resolve 0 ''0x1'') bothClearing))"
  proof (intro allI impI)
    fix q :: role
    assume "q \<noteq> TxBatch"
    then have "q = StateBatch" by (cases q) simp_all
    then show "SubmitNextBatch q \<notin> set (trace (exec (exampleEnv ''true'' ''true'' ''true'') (Resolve 0 ''0xme'')
       (Resolve 0 ''0x1'') bothClearing))"
      by (simp add: example_clearing_tasks)
  qed
  note closed = reconciliation_closes_gap [OF window example_clearing others
      example_clearing_tasks(1) example_cleared example_clearing_tasks(4)]
  from window example_clearing example_clearing_tasks example_cleared closed
  show ?thesis by blast
qed

end
